theory Spec2Isabelle
  imports Main "HOL-Library.Word" "HOL-Library.Signed_Division"
begin

unbundle bit_operations_syntax

section \<open>Machine types\<close>

text \<open>
  Go's \<open>byte\<close>, \<open>uint32\<close> and \<open>uint64\<close> are words of that width. Go's \<open>int\<close> and
  \<open>int64\<close> are 64-bit words read in two's complement (\<open>sint\<close>); \<open>int\<close> is taken at its
  width on 64-bit platforms, where \<open>int64(x)\<close> of an \<open>int\<close> is the identity.
\<close>

type_synonym byte = "8 word"
type_synonym uint32 = "32 word"
type_synonym uint64 = "64 word"
type_synonym int64 = "64 word"

section \<open>Failures\<close>

text \<open>
  A Go \<open>error\<close> value made by \<open>errors.New\<close> carries its message. A run-time panic is not an
  error value: it unwinds through every caller of this package, none of which recovers.
\<close>

datatype panic = DivideByZero | IndexOutOfRange | MakeLenOutOfRange

datatype failure = Error string | Panic panic

section \<open>crypto/sha1 (FIPS 180-4) and crypto/hmac (RFC 2104)\<close>

text \<open>
  The two standard-library packages that \<open>GenerateOTP\<close> calls, as their generic
  implementations compute them.
\<close>

definition RotateLeft32 :: "uint32 \<Rightarrow> nat \<Rightarrow> uint32" where
  "RotateLeft32 x k = push_bit k x OR drop_bit (32 - k) x"

definition sha1_f :: "nat \<Rightarrow> uint32 \<Rightarrow> uint32 \<Rightarrow> uint32 \<Rightarrow> uint32" where
  "sha1_f t b c d =
     (if t < 20 then (b AND c) OR (NOT b AND d)
      else if t < 40 then b XOR c XOR d
      else if t < 60 then ((b OR c) AND d) OR (b AND c)
      else b XOR c XOR d)"

definition sha1_K :: "nat \<Rightarrow> uint32" where
  "sha1_K t =
     (if t < 20 then 0x5A827999
      else if t < 40 then 0x6ED9EBA1
      else if t < 60 then 0x8F1BBCDC
      else 0xCA62C1D6)"

text \<open>The sixteen big-endian words of a 64-byte chunk.\<close>

fun be_words :: "byte list \<Rightarrow> uint32 list" where
  "be_words (b0 # b1 # b2 # b3 # bs) =
     (push_bit 24 (ucast b0) OR push_bit 16 (ucast b1) OR push_bit 8 (ucast b2) OR ucast b3)
       # be_words bs"
| "be_words _ = []"

text \<open>
  The message schedule: \<open>sha1_schedule n win\<close> gives the next \<open>n\<close> words, \<open>win\<close> holding
  the sixteen latest ones (the circular buffer \<open>w\<close> of the Go code), oldest first.
\<close>

fun sha1_schedule :: "nat \<Rightarrow> uint32 list \<Rightarrow> uint32 list" where
  "sha1_schedule 0 win = []"
| "sha1_schedule (Suc n) win =
     hd win # sha1_schedule n
       (tl win @ [RotateLeft32 (win ! 13 XOR win ! 8 XOR win ! 2 XOR win ! 0) 1])"

type_synonym sha1_state = "uint32 \<times> uint32 \<times> uint32 \<times> uint32 \<times> uint32"

fun sha1_rounds :: "nat \<Rightarrow> uint32 list \<Rightarrow> sha1_state \<Rightarrow> sha1_state" where
  "sha1_rounds t [] s = s"
| "sha1_rounds t (w # ws) (a, b, c, d, e) =
     sha1_rounds (t + 1) ws
       (RotateLeft32 a 5 + sha1_f t b c d + e + w + sha1_K t, a, RotateLeft32 b 30, c, d)"

fun sha1_add :: "sha1_state \<Rightarrow> sha1_state \<Rightarrow> sha1_state" where
  "sha1_add (h0, h1, h2, h3, h4) (a, b, c, d, e) = (h0 + a, h1 + b, h2 + c, h3 + d, h4 + e)"

definition sha1_block :: "sha1_state \<Rightarrow> byte list \<Rightarrow> sha1_state" where
  "sha1_block h p = sha1_add h (sha1_rounds 0 (sha1_schedule 80 (be_words p)) h)"

function sha1_blocks :: "sha1_state \<Rightarrow> byte list \<Rightarrow> sha1_state" where
  "sha1_blocks h p =
     (if length p < 64 then h else sha1_blocks (sha1_block h (take 64 p)) (drop 64 p))"
  by pat_completeness auto
termination
  by (relation "measure (\<lambda>(h, p). length p)") auto

definition sha1_init :: sha1_state where
  "sha1_init = (0x67452301, 0xEFCDAB89, 0x98BADCFE, 0x10325476, 0xC3D2E1F0)"

definition PutUint32 :: "uint32 \<Rightarrow> byte list" where
  "PutUint32 w = [ucast (drop_bit 24 w), ucast (drop_bit 16 w), ucast (drop_bit 8 w), ucast w]"

definition PutUint64 :: "uint64 \<Rightarrow> byte list" where
  "PutUint64 w =
     [ucast (drop_bit 56 w), ucast (drop_bit 48 w), ucast (drop_bit 40 w), ucast (drop_bit 32 w),
      ucast (drop_bit 24 w), ucast (drop_bit 16 w), ucast (drop_bit 8 w), ucast w]"

text \<open>
  The padding written by \<open>checkSum\<close> after \<open>len\<close> bytes of message: a one bit, zero bits
  up to 56 bytes modulo 64, and the message length in bits as a \<open>uint64\<close>.
\<close>

definition sha1_padding :: "nat \<Rightarrow> byte list" where
  "sha1_padding len =
     0x80 # replicate ((if len mod 64 < 56 then 56 - len mod 64 else 64 + 56 - len mod 64) - 1) 0
       @ PutUint64 (push_bit 3 (word_of_nat len))"

fun sha1_out :: "sha1_state \<Rightarrow> byte list" where
  "sha1_out (h0, h1, h2, h3, h4) =
     PutUint32 h0 @ PutUint32 h1 @ PutUint32 h2 @ PutUint32 h3 @ PutUint32 h4"

definition sha1_Sum :: "byte list \<Rightarrow> byte list" where
  "sha1_Sum m = sha1_out (sha1_blocks sha1_init (m @ sha1_padding (length m)))"

text \<open>
  \<open>hmac.New(sha1.New, key)\<close>: a key longer than the block size of 64 bytes is hashed
  first; the key is then filled with zero bytes to the block size.
\<close>

definition hmac_key :: "byte list \<Rightarrow> byte list" where
  "hmac_key key =
     (if length key > 64 then sha1_Sum key @ replicate 44 0
      else key @ replicate (64 - length key) 0)"

definition hmac_ipad :: "byte list \<Rightarrow> byte list" where
  "hmac_ipad key = map (\<lambda>b. b XOR 0x36) (hmac_key key)"

definition hmac_opad :: "byte list \<Rightarrow> byte list" where
  "hmac_opad key = map (\<lambda>b. b XOR 0x5c) (hmac_key key)"

definition hmac_sha1 :: "byte list \<Rightarrow> byte list \<Rightarrow> byte list" where
  "hmac_sha1 key msg = sha1_Sum (hmac_opad key @ sha1_Sum (hmac_ipad key @ msg))"

section \<open>encoding/base32 and strings\<close>

definition encodeStd :: string where
  "encodeStd = ''ABCDEFGHIJKLMNOPQRSTUVWXYZ234567''"

text \<open>
  \<open>Encoding.Encode\<close> unpacks a quantum of up to five source bytes into eight 5-bit
  values; a source byte that is missing contributes no bits, as a zero byte does.
\<close>

definition b32_unpack :: "byte \<Rightarrow> byte \<Rightarrow> byte \<Rightarrow> byte \<Rightarrow> byte \<Rightarrow> byte list" where
  "b32_unpack s0 s1 s2 s3 s4 =
     [drop_bit 3 s0,
      (drop_bit 6 s1 AND 0x1F) OR (push_bit 2 s0 AND 0x1F),
      drop_bit 1 s1 AND 0x1F,
      (drop_bit 4 s2 AND 0x1F) OR (push_bit 4 s1 AND 0x1F),
      drop_bit 7 s3 OR (push_bit 1 s2 AND 0x1F),
      drop_bit 2 s3 AND 0x1F,
      drop_bit 5 s4 OR (push_bit 3 s3 AND 0x1F),
      s4 AND 0x1F]"

definition b32_chars :: "byte list \<Rightarrow> string" where
  "b32_chars bs = map (\<lambda>b. encodeStd ! unat (b AND 31)) bs"

text \<open>
  \<open>StdEncoding.EncodeToString\<close>: full quanta give eight characters each; the final
  partial quantum is filled with the padding character \<open>=\<close>.
\<close>

fun EncodeToString :: "byte list \<Rightarrow> string" where
  "EncodeToString [] = []"
| "EncodeToString [s0] = take 2 (b32_chars (b32_unpack s0 0 0 0 0)) @ ''======''"
| "EncodeToString [s0, s1] = take 4 (b32_chars (b32_unpack s0 s1 0 0 0)) @ ''====''"
| "EncodeToString [s0, s1, s2] = take 5 (b32_chars (b32_unpack s0 s1 s2 0 0)) @ ''===''"
| "EncodeToString [s0, s1, s2, s3] = take 7 (b32_chars (b32_unpack s0 s1 s2 s3 0)) @ ''=''"
| "EncodeToString (s0 # s1 # s2 # s3 # s4 # src) =
     b32_chars (b32_unpack s0 s1 s2 s3 s4) @ EncodeToString src"

text \<open>\<open>strings.ToUpper\<close> on a string of ASCII characters.\<close>

definition upper_char :: "char \<Rightarrow> char" where
  "upper_char c =
     (if 97 \<le> (of_char c :: nat) \<and> (of_char c :: nat) \<le> 122
      then char_of ((of_char c :: nat) - 32) else c)"

definition ToUpper :: "string \<Rightarrow> string" where
  "ToUpper s = map upper_char s"

section \<open>fmt and math\<close>

function FormatUint :: "nat \<Rightarrow> string" where
  "FormatUint n =
     (if n < 10 then [char_of (48 + n)] else FormatUint (n div 10) @ [char_of (48 + n mod 10)])"
  by pat_completeness auto
termination
  by (relation "measure (\<lambda>n. n)") auto

definition FormatInt :: "int \<Rightarrow> string" where
  "FormatInt v = (if v < 0 then CHR ''-'' # FormatUint (nat (- v)) else FormatUint (nat v))"

definition zero_pad :: "nat \<Rightarrow> string \<Rightarrow> string" where
  "zero_pad prec ds = replicate (prec - length ds) CHR ''0'' @ ds"

text \<open>
  \<open>fmt.Sprintf(fmt.Sprintf("%%0%dd", n), v)\<close> for an \<open>int\<close> \<open>v\<close>. The inner call gives
  the format \<open>%0\<close>, the decimal digits of \<open>n\<close>, \<open>d\<close>. The outer call reads it as follows.
  \<^item> \<open>n = 0\<close>: the format is \<open>%00d\<close>, two zero flags and no width: \<open>v\<close> in decimal.
  \<^item> \<open>n > 0\<close>: the zero flag and the width \<open>n\<close>: zeroes are written between the sign
    and the digits up to the width. While reading a width, fmt's \<open>parsenum\<close> gives up as
    soon as the number read so far exceeds \<open>tooLarge\<close>'s bound of \<open>10\<^sup>6\<close> and another
    digit follows; the format then has no verb, and the output is the marker
    \<open>%!(NOVERB)\<close> followed by the unused argument as \<open>%!(EXTRA int=v)\<close>.
  \<^item> \<open>n < 0\<close>: the format is \<open>%0-md\<close> with \<open>m = -n\<close>: the minus flag switches the zero
    flag off, and \<open>v\<close> is filled with spaces on the right up to the width \<open>m\<close>.
\<close>

definition NOVERB :: "int \<Rightarrow> string" where
  "NOVERB v = ''%!(NOVERB)%!(EXTRA int='' @ FormatInt v @ '')''"

definition Sprintf_0d :: "int \<Rightarrow> int \<Rightarrow> string" where
  "Sprintf_0d n v =
     (if n = 0 then FormatInt v
      else if 1000000 < \<bar>n\<bar> div 10 then NOVERB v
      else if n < 0 then FormatInt v @ replicate (nat (- n) - length (FormatInt v)) CHR '' ''
      else if v < 0 then CHR ''-'' # zero_pad (nat n - 1) (FormatUint (nat (- v)))
      else zero_pad (nat n) (FormatUint (nat v)))"

text \<open>
  \<open>int(math.Pow10(n))\<close>. \<open>math.Pow10(n)\<close> is the \<open>float64\<close> nearest to \<open>10\<^sup>n\<close>: below 1
  for \<open>n < 0\<close>, which the conversion truncates to 0; exactly \<open>10\<^sup>n\<close> for \<open>0 \<le> n \<le> 18\<close>; and
  for \<open>n \<ge> 19\<close> beyond the range of \<open>int\<close>, where the result of the conversion depends on
  the platform: the smallest \<open>int\<close> on amd64, which is modelled here (arm64 gives the
  largest one; the remainder of a truncated value is the same for both).
\<close>

definition Pow10_int :: "int \<Rightarrow> int64" where
  "Pow10_int n =
     (if n < 0 then 0 else if n \<le> 18 then word_of_int (10 ^ nat n) else word_of_int (- (2 ^ 63)))"

text \<open>Go's \<open>/\<close> and \<open>%\<close> on \<open>int64\<close> truncate towards zero; the divisor is not zero.\<close>

definition go_div :: "int64 \<Rightarrow> int64 \<Rightarrow> int64" where
  "go_div a b = word_of_int (sint a sdiv sint b)"

definition go_rem :: "int64 \<Rightarrow> int64 \<Rightarrow> int64" where
  "go_rem a b = word_of_int (sint a smod sint b)"

section \<open>Package gotp\<close>

text \<open>The package-level variables, read by every call.\<close>

record config =
  StepSeconds :: int64
  SeedLength :: int64
  TokenLength :: int64

definition default_config :: config where
  "default_config = \<lparr>StepSeconds = 30, SeedLength = 20, TokenLength = 6\<rparr>"

definition runeCharacters :: string where
  "runeCharacters = ''1234567890ABCDEFGHIJKLMNOPQRSTUVWXYZ''"

record Token =
  Seed :: "byte list"
  Base32 :: string

subsection \<open>GenerateOTP\<close>

text \<open>An index expression \<open>s[i]\<close> panics when \<open>i\<close> is out of range.\<close>

definition index :: "byte list \<Rightarrow> nat \<Rightarrow> failure + byte" where
  "index s i = (if i < length s then Inr (s ! i) else Inl (Panic IndexOutOfRange))"

text \<open>
  Lines 61 to 65: the offset, the four bytes read at it, and the \<open>int\<close> put together
  from them (\<open>pack31\<close>).
\<close>

definition truncate_offset :: "byte list \<Rightarrow> failure + nat" where
  "truncate_offset hmac =
     (if length hmac = 0 then Inl (Panic IndexOutOfRange)
      else Inr (unat (hmac ! (length hmac - 1) AND 0xF)))"

definition pack31 :: "byte \<Rightarrow> byte \<Rightarrow> byte \<Rightarrow> byte \<Rightarrow> int64" where
  "pack31 h0 h1 h2 h3 =
     push_bit 24 (ucast h0 AND 0x7F) OR
     push_bit 16 (ucast (h1 AND 0xFF)) OR
     push_bit 8 (ucast (h2 AND 0xFF)) OR
     (ucast h3 AND 0xFF)"

definition truncate_at :: "byte list \<Rightarrow> nat \<Rightarrow> failure + int64" where
  "truncate_at hmac offset =
     (case index hmac offset of Inl f \<Rightarrow> Inl f | Inr h0 \<Rightarrow>
       (case index hmac (offset + 1) of Inl f \<Rightarrow> Inl f | Inr h1 \<Rightarrow>
         (case index hmac (offset + 2) of Inl f \<Rightarrow> Inl f | Inr h2 \<Rightarrow>
           (case index hmac (offset + 3) of Inl f \<Rightarrow> Inl f | Inr h3 \<Rightarrow>
              Inr (pack31 h0 h1 h2 h3)))))"

definition dynamic_truncate :: "byte list \<Rightarrow> failure + int64" where
  "dynamic_truncate hmac =
     (case truncate_offset hmac of Inl f \<Rightarrow> Inl f | Inr offset \<Rightarrow> truncate_at hmac offset)"

text \<open>Lines 67 to 72: the remainder and its rendering.\<close>

definition render :: "config \<Rightarrow> int64 \<Rightarrow> failure + string" where
  "render cfg otp =
     (if Pow10_int (sint (TokenLength cfg)) = 0 then Inl (Panic DivideByZero)
      else Inr (Sprintf_0d (sint (TokenLength cfg))
                  (sint (go_rem otp (Pow10_int (sint (TokenLength cfg)))))))"

definition GenerateOTP :: "config \<Rightarrow> Token \<Rightarrow> byte list \<Rightarrow> failure + string" where
  "GenerateOTP cfg t counterBytes =
     (if length (Seed t) = 0 then Inl (Error ''OTP has no seed.'')
      else if length counterBytes = 0 then Inl (Error ''Counter is nil or otherwise malformed.'')
      else case dynamic_truncate (hmac_sha1 (Seed t) counterBytes) of
             Inl f \<Rightarrow> Inl f
           | Inr otp \<Rightarrow> render cfg otp)"

subsection \<open>GenerateTOTP\<close>

text \<open>
  The loop of lines 79 to 82, from index \<open>i\<close> down to 0; \<open>>>\<close> on an \<open>int64\<close> is the
  arithmetic shift.
\<close>

fun timeBytes_loop :: "nat \<Rightarrow> int64 \<Rightarrow> byte list \<Rightarrow> byte list" where
  "timeBytes_loop 0 timeStep timeBytes = timeBytes[0 := ucast (timeStep AND 0xff)]"
| "timeBytes_loop (Suc i) timeStep timeBytes =
     timeBytes_loop i (signed_drop_bit 8 timeStep) (timeBytes[Suc i := ucast (timeStep AND 0xff)])"

definition GenerateTOTP :: "config \<Rightarrow> Token \<Rightarrow> int64 \<Rightarrow> failure + string" where
  "GenerateTOTP cfg t genTime =
     (if StepSeconds cfg = 0 then Inl (Panic DivideByZero)
      else GenerateOTP cfg t
             (timeBytes_loop 7 (go_div genTime (StepSeconds cfg)) (replicate 8 0)))"

subsection \<open>VerifyChallenge\<close>

text \<open>
  \<open>time.Now().Unix()\<close> is read once in every iteration of the first loop: \<open>clock k\<close> is
  the reading of iteration \<open>k\<close>. The first loop returns \<open>false\<close> (here \<open>None\<close>) at the first
  error; a panic goes through.
\<close>

fun generate_all ::
  "config \<Rightarrow> Token \<Rightarrow> (nat \<Rightarrow> int64) \<Rightarrow> nat \<Rightarrow> int64 list \<Rightarrow> string list
   \<Rightarrow> failure + string list option" where
  "generate_all cfg t clock k [] otps = Inr (Some otps)"
| "generate_all cfg t clock k (step # steps) otps =
     (case GenerateTOTP cfg t (clock k + step) of
        Inl (Error e) \<Rightarrow> Inr None
      | Inl (Panic p) \<Rightarrow> Inl (Panic p)
      | Inr otp \<Rightarrow> generate_all cfg t clock (k + 1) steps (otps @ [otp]))"

fun match_any :: "string list \<Rightarrow> string \<Rightarrow> bool" where
  "match_any [] challenge = False"
| "match_any (otp # otps) challenge = (if otp = challenge then True else match_any otps challenge)"

definition VerifyChallenge ::
  "config \<Rightarrow> (nat \<Rightarrow> int64) \<Rightarrow> Token \<Rightarrow> string \<Rightarrow> bool \<Rightarrow> failure + bool" where
  "VerifyChallenge cfg clock t challenge drift =
     (case generate_all cfg t clock 0
             ([0] @ (if drift = True then [(- 1) * StepSeconds cfg, StepSeconds cfg] else [])) [] of
        Inl f \<Rightarrow> Inl f
      | Inr None \<Rightarrow> Inr False
      | Inr (Some otps) \<Rightarrow> Inr (match_any otps challenge))"

subsection \<open>TokenFromBytes and NewToken\<close>

definition TokenFromBytes :: "byte list \<Rightarrow> failure + Token" where
  "TokenFromBytes seedBytes =
     Inr \<lparr>Seed = seedBytes, Base32 = ToUpper (EncodeToString seedBytes)\<rparr>"

text \<open>
  \<open>intn k\<close> is the result of the \<open>k\<close>-th call of \<open>rand.Intn(len(runeCharacters))\<close>, which
  lies below its argument. \<open>make([]rune, n)\<close> panics on a negative length and on one whose
  four-byte elements take more than the allocation limit of the runtime (\<open>2 ^ 48\<close> bytes on
  64-bit Linux); a length below the limit that the machine cannot provide ends the process
  and is outside the model. Every rune of \<open>runeCharacters\<close> is one byte of the string made
  from them.
\<close>

definition NewToken :: "config \<Rightarrow> (nat \<Rightarrow> nat) \<Rightarrow> failure + Token" where
  "NewToken cfg intn =
     (if sint (SeedLength cfg) < 0 \<or> 2 ^ 46 < sint (SeedLength cfg)
      then Inl (Panic MakeLenOutOfRange)
      else TokenFromBytes
             (map (\<lambda>i. of_char (runeCharacters ! (intn i mod length runeCharacters)))
                [0 ..< nat (sint (SeedLength cfg))]))"

subsection \<open>The receiver across calls\<close>

text \<open>
  The three methods have the pointer receiver \<open>t *Token\<close>. \<open>call\<close> pairs the result of a
  method call with the token as the call leaves it; no method assigns to \<open>t.Seed\<close> or
  to \<open>t.Base32\<close>, or writes an element of \<open>t.Seed\<close>.
\<close>

datatype invocation =
  CallGenerateOTP "byte list"
| CallGenerateTOTP int64
| CallVerifyChallenge string bool

datatype result = Code "failure + string" | Verdict "failure + bool"

fun call :: "config \<Rightarrow> (nat \<Rightarrow> int64) \<Rightarrow> Token \<Rightarrow> invocation \<Rightarrow> Token \<times> result" where
  "call cfg clock t (CallGenerateOTP counterBytes) = (t, Code (GenerateOTP cfg t counterBytes))"
| "call cfg clock t (CallGenerateTOTP genTime) = (t, Code (GenerateTOTP cfg t genTime))"
| "call cfg clock t (CallVerifyChallenge challenge drift) =
     (t, Verdict (VerifyChallenge cfg clock t challenge drift))"

fun calls :: "config \<Rightarrow> (nat \<Rightarrow> int64) \<Rightarrow> Token \<Rightarrow> invocation list \<Rightarrow> Token" where
  "calls cfg clock t [] = t"
| "calls cfg clock t (m # ms) = calls cfg clock (fst (call cfg clock t m)) ms"

subsection \<open>The test data of the package\<close>

definition testSeedBytes :: "byte list" where
  "testSeedBytes =
     [65, 66, 67, 68, 69, 70, 71, 72, 73, 74, 75, 76, 77, 78, 79, 80, 81, 82, 83, 84]"

definition testTime :: int64 where
  "testTime = 100000"

definition testToken :: Token where
  "testToken = \<lparr>Seed = testSeedBytes, Base32 = ''IFBEGRCFIZDUQSKKJNGE2TSPKBIVEU2U''\<rparr>"

section \<open>The specification's notions\<close>

text \<open>
  The dynamic truncation of the specification, on a digest and over the integers:
  \<open>offset = digest[19] & 0x0F\<close> and
  \<open>binCode = (digest[offset]&0x7F)<<24 | digest[offset+1]<<16 | digest[offset+2]<<8 | digest[offset+3]\<close>.
\<close>

definition spec_offset :: "byte list \<Rightarrow> nat" where
  "spec_offset digest = unat (digest ! 19 AND 0x0F)"

definition spec_binCode :: "byte list \<Rightarrow> int" where
  "spec_binCode digest =
     push_bit 24 (uint (digest ! spec_offset digest) AND 0x7F) OR
     push_bit 16 (uint (digest ! (spec_offset digest + 1))) OR
     push_bit 8 (uint (digest ! (spec_offset digest + 2))) OR
     uint (digest ! (spec_offset digest + 3))"

text \<open>The numeric value of a non-empty string of decimal digits.\<close>

definition is_digit :: "char \<Rightarrow> bool" where
  "is_digit c = (48 \<le> (of_char c :: nat) \<and> (of_char c :: nat) \<le> 57)"

definition digit_of :: "char \<Rightarrow> nat option" where
  "digit_of c = (if is_digit c then Some ((of_char c :: nat) - 48) else None)"

fun parse_digits :: "nat \<Rightarrow> string \<Rightarrow> nat option" where
  "parse_digits acc [] = Some acc"
| "parse_digits acc (c # cs) =
     (case digit_of c of None \<Rightarrow> None | Some d \<Rightarrow> parse_digits (10 * acc + d) cs)"

definition decimal_value :: "string \<Rightarrow> nat option" where
  "decimal_value s = (if s = [] then None else parse_digits 0 s)"

text \<open>
  The base-32 encoding of RFC 4648, section 6: the bits of the bytes, most significant
  first, are cut into groups of five, the last one filled with zero bits; each group
  is the index of a character of the alphabet; the padding character fills the text to
  a multiple of eight characters.
\<close>

definition byte_bits :: "byte \<Rightarrow> bool list" where
  "byte_bits b = [bit b 7, bit b 6, bit b 5, bit b 4, bit b 3, bit b 2, bit b 1, bit b 0]"

fun groups5 :: "bool list \<Rightarrow> bool list list" where
  "groups5 (b0 # b1 # b2 # b3 # b4 # bs) = [b0, b1, b2, b3, b4] # groups5 bs"
| "groups5 [] = []"
| "groups5 bs = [take 5 (bs @ replicate 4 False)]"

definition group_value :: "bool list \<Rightarrow> nat" where
  "group_value g = foldl (\<lambda>v b. 2 * v + of_bool b) 0 g"

definition chars_of_bits :: "bool list \<Rightarrow> string" where
  "chars_of_bits bits = map (\<lambda>g. encodeStd ! group_value g) (groups5 bits)"

definition rfc4648_base32 :: "byte list \<Rightarrow> string" where
  "rfc4648_base32 bs =
     (let cs = chars_of_bits (concat (map byte_bits bs))
      in cs @ replicate ((8 - length cs mod 8) mod 8) CHR ''='')"

text \<open>The invariant of a token: the display encoding is that of the secret.\<close>

definition Token_inv :: "Token \<Rightarrow> bool" where
  "Token_inv t = (Base32 t = ToUpper (rfc4648_base32 (Seed t)))"

section \<open>Auxiliary notions\<close>

text \<open>
  The value of lines 62 to 65 on a digest, the code rendered from a digest, and the code
  of a time: what \<open>GenerateOTP\<close> and \<open>GenerateTOTP\<close> return when they return a code.
\<close>

definition truncated :: "byte list \<Rightarrow> int64" where
  "truncated digest =
     pack31 (digest ! spec_offset digest) (digest ! (spec_offset digest + 1))
       (digest ! (spec_offset digest + 2)) (digest ! (spec_offset digest + 3))"

definition otp_string :: "config \<Rightarrow> byte list \<Rightarrow> string" where
  "otp_string cfg digest =
     Sprintf_0d (sint (TokenLength cfg)) (spec_binCode digest mod 10 ^ nat (sint (TokenLength cfg)))"

definition totp_string :: "config \<Rightarrow> Token \<Rightarrow> int64 \<Rightarrow> string" where
  "totp_string cfg t genTime =
     otp_string cfg (hmac_sha1 (Seed t) (PutUint64 (go_div genTime (StepSeconds cfg))))"

text \<open>The number that a sequence of bytes denotes, most significant byte first.\<close>

definition be_value :: "byte list \<Rightarrow> int" where
  "be_value bs = foldl (\<lambda>v b. 256 * v + uint b) 0 bs"

section \<open>Properties of the library functions\<close>

lemma length_sha1_out: "length (sha1_out s) = 20"
  by (cases s) (simp add: PutUint32_def)

lemma length_sha1_Sum: "length (sha1_Sum m) = 20"
  by (simp add: sha1_Sum_def length_sha1_out)

lemma length_hmac_sha1: "length (hmac_sha1 key msg) = 20"
  by (simp add: hmac_sha1_def length_sha1_Sum)

lemma replicate_numeral: "replicate (numeral k) x = x # replicate (pred_numeral k) x"
  by (simp add: numeral_eq_Suc)

subsection \<open>Base 32\<close>

lemma group_value_5:
  "group_value [b4, b3, b2, b1, b0] =
     16 * of_bool b4 + 8 * of_bool b3 + 4 * of_bool b2 + 2 * of_bool b1 + of_bool b0"
  by (simp add: group_value_def)

lemma unat_and_31:
  "unat ((x :: byte) AND 31) =
     16 * of_bool (bit x 4) + 8 * of_bool (bit x 3) + 4 * of_bool (bit x 2) + 2 * of_bool (bit x 1)
       + of_bool (bit x 0)"
proof -
  have upt: "[0..<5] = [0, 1, 2, 3, 4 :: nat]"
    by code_simp
  have "(31 :: byte) = mask 5"
    by (simp add: mask_eq_exp_minus_1)
  then have "unat (x AND 31) = unat (take_bit 5 x)"
    by (simp only: take_bit_eq_mask)
  also have "\<dots> = take_bit 5 (unat x)"
    by (simp add: unsigned_take_bit_eq)
  also have "\<dots> = (horner_sum of_bool 2 (map (bit (unat x)) [0..<5]) :: nat)"
    by (simp only: horner_sum_bit_eq_take_bit)
  also have "\<dots> = 16 * of_bool (bit x 4) + 8 * of_bool (bit x 3) + 4 * of_bool (bit x 2)
       + 2 * of_bool (bit x 1) + of_bool (bit x 0)"
    unfolding upt by (simp add: bit_unsigned_iff)
  finally show ?thesis .
qed

lemma group_value_byte:
  "group_value [bit x 4, bit x 3, bit x 2, bit x 1, bit x 0] = unat ((x :: byte) AND 31)"
  by (simp only: group_value_5 unat_and_31)

lemma bit_31: "bit (31 :: byte) n = (n < 5)"
proof -
  have "(31 :: byte) = mask 5"
    by (simp add: mask_eq_exp_minus_1)
  then show ?thesis
    by (simp only: bit_mask_iff) auto
qed

lemma bit_byte_out: "8 \<le> n \<Longrightarrow> bit (w :: byte) n = False"
  by (auto dest: bit_imp_le_length)

lemma bit_byte_double: "bit ((w :: byte) * 2) n = (n \<noteq> 0 \<and> n < 8 \<and> bit w (n - 1))"
proof -
  have "bit (2 * w) n = (n \<noteq> 0 \<and> n < 8 \<and> bit w (n - 1))"
    by (auto simp add: bit_double_iff possible_bit_word dest: bit_imp_le_length)
  then show ?thesis
    by (simp only: mult.commute [of w 2])
qed

lemma b32_unpack_bits:
  "b32_chars (b32_unpack s0 s1 s2 s3 s4) =
     chars_of_bits (byte_bits s0 @ byte_bits s1 @ byte_bits s2 @ byte_bits s3 @ byte_bits s4)"
  apply (simp only: b32_chars_def b32_unpack_def list.map group_value_byte [symmetric])
  apply (simp add: chars_of_bits_def byte_bits_def bit_simps bit_31 bit_byte_out bit_byte_double
      numeral_2_eq_2 [symmetric] numeral_3_eq_3 [symmetric])
  done


lemma chars_of_bits_quantum:
  "chars_of_bits (byte_bits s0 @ byte_bits s1 @ byte_bits s2 @ byte_bits s3 @ byte_bits s4 @ bits) =
     chars_of_bits (byte_bits s0 @ byte_bits s1 @ byte_bits s2 @ byte_bits s3 @ byte_bits s4)
       @ chars_of_bits bits"
  by (simp add: chars_of_bits_def byte_bits_def)

lemma length_b32_chars_unpack: "length (b32_chars (b32_unpack s0 s1 s2 s3 s4)) = 8"
  by (simp add: b32_chars_def b32_unpack_def)

lemma rfc4648_base32_quantum:
  "rfc4648_base32 (s0 # s1 # s2 # s3 # s4 # src) =
     b32_chars (b32_unpack s0 s1 s2 s3 s4) @ rfc4648_base32 src"
proof -
  have "chars_of_bits (concat (map byte_bits (s0 # s1 # s2 # s3 # s4 # src))) =
          b32_chars (b32_unpack s0 s1 s2 s3 s4) @ chars_of_bits (concat (map byte_bits src))"
    using chars_of_bits_quantum [of s0 s1 s2 s3 s4 "concat (map byte_bits src)"]
    by (simp add: b32_unpack_bits)
  then show ?thesis
    by (simp add: rfc4648_base32_def Let_def length_b32_chars_unpack)
qed

lemma rfc4648_base32_1:
  "rfc4648_base32 [s0] = take 2 (b32_chars (b32_unpack s0 0 0 0 0)) @ ''======''"
  by (simp add: rfc4648_base32_def Let_def b32_unpack_bits chars_of_bits_def byte_bits_def
      replicate_numeral)

lemma rfc4648_base32_2:
  "rfc4648_base32 [s0, s1] = take 4 (b32_chars (b32_unpack s0 s1 0 0 0)) @ ''====''"
  by (simp add: rfc4648_base32_def Let_def b32_unpack_bits chars_of_bits_def byte_bits_def
      replicate_numeral)

lemma rfc4648_base32_3:
  "rfc4648_base32 [s0, s1, s2] = take 5 (b32_chars (b32_unpack s0 s1 s2 0 0)) @ ''===''"
  by (simp add: rfc4648_base32_def Let_def b32_unpack_bits chars_of_bits_def byte_bits_def
      replicate_numeral)

lemma rfc4648_base32_4:
  "rfc4648_base32 [s0, s1, s2, s3] = take 7 (b32_chars (b32_unpack s0 s1 s2 s3 0)) @ ''=''"
  by (simp add: rfc4648_base32_def Let_def b32_unpack_bits chars_of_bits_def byte_bits_def
      replicate_numeral)

lemma EncodeToString_rfc4648: "EncodeToString src = rfc4648_base32 src"
proof (induction src rule: EncodeToString.induct)
  case 1
  show ?case by (simp add: rfc4648_base32_def chars_of_bits_def)
next
  case (2 s0)
  show ?case by (simp only: EncodeToString.simps rfc4648_base32_1)
next
  case (3 s0 s1)
  show ?case by (simp only: EncodeToString.simps rfc4648_base32_2)
next
  case (4 s0 s1 s2)
  show ?case by (simp only: EncodeToString.simps rfc4648_base32_3)
next
  case (5 s0 s1 s2 s3)
  show ?case by (simp only: EncodeToString.simps rfc4648_base32_4)
next
  case (6 s0 s1 s2 s3 s4 src)
  then show ?case by (simp only: EncodeToString.simps rfc4648_base32_quantum)
qed


lemma unat_and_31_less: "unat ((b :: byte) AND 31) < 32"
proof -
  have "unat (b AND 31) \<le> unat (31 :: byte)"
    by (rule word_and_le1 [THEN word_le_nat_alt [THEN iffD1]])
  then show ?thesis by simp
qed

lemma b32_chars_alphabet: "set (b32_chars bs) \<subseteq> set encodeStd"
proof -
  have "encodeStd ! unat (b AND 31) \<in> set encodeStd" for b :: byte
    using unat_and_31_less [of b] by (intro nth_mem) (simp add: encodeStd_def)
  then show ?thesis
    by (auto simp add: b32_chars_def)
qed

lemma take_b32_chars_alphabet: "set (take k (b32_chars bs)) \<subseteq> set encodeStd"
  using set_take_subset [of k "b32_chars bs"] b32_chars_alphabet [of bs] by blast

lemma EncodeToString_alphabet:
  "set (EncodeToString src) \<subseteq> set encodeStd \<union> {CHR ''=''}"
proof (induction src rule: EncodeToString.induct)
  case (6 s0 s1 s2 s3 s4 src)
  then show ?case
    using b32_chars_alphabet [of "b32_unpack s0 s1 s2 s3 s4"] by auto
qed (use take_b32_chars_alphabet in auto)

lemma upper_char_alphabet: "list_all (\<lambda>c. upper_char c = c) (encodeStd @ ''='')"
  by (simp add: encodeStd_def upper_char_def)

lemma ToUpper_EncodeToString: "ToUpper (EncodeToString src) = EncodeToString src"
proof -
  have "upper_char c = c" if "c \<in> set (EncodeToString src)" for c
  proof -
    have "c \<in> set (encodeStd @ ''='')"
      using that EncodeToString_alphabet [of src] by auto
    then show ?thesis
      using upper_char_alphabet by (simp only: list_all_iff)
  qed
  then show ?thesis
    unfolding ToUpper_def by (intro map_idI)
qed

lemma EncodeToString_test:
  "EncodeToString testSeedBytes = ''IFBEGRCFIZDUQSKKJNGE2TSPKBIVEU2U''"
  by (simp add: testSeedBytes_def b32_chars_def b32_unpack_def encodeStd_def)

lemma TokenFromBytes_test: "TokenFromBytes testSeedBytes = Inr testToken"
proof -
  have "ToUpper (EncodeToString testSeedBytes) = EncodeToString testSeedBytes"
    by (rule ToUpper_EncodeToString)
  then show ?thesis
    by (simp add: TokenFromBytes_def testToken_def EncodeToString_test)
qed

section \<open>Properties of the package\<close>

subsection \<open>Truncation, remainder and rendering\<close>

lemma offset_le_15: "unat ((b :: byte) AND 0xF) \<le> 15"
proof -
  have "unat (b AND 0xF) \<le> unat (0xF :: byte)"
    by (rule word_and_le1 [THEN word_le_nat_alt [THEN iffD1]])
  then show ?thesis by simp
qed

lemma truncate_offset_20:
  "length hmac = 20 \<Longrightarrow> truncate_offset hmac = Inr (unat (hmac ! 19 AND 0xF))"
  by (simp add: truncate_offset_def)

lemma truncate_at_in_range:
  "offset + 3 < length hmac \<Longrightarrow>
   truncate_at hmac offset =
     Inr (pack31 (hmac ! offset) (hmac ! (offset + 1)) (hmac ! (offset + 2)) (hmac ! (offset + 3)))"
  by (simp add: truncate_at_def index_def)

lemma and_ff_byte: "(h :: byte) AND 0xFF = h"
proof -
  have "(0xFF :: byte) = - 1" by simp
  then show ?thesis by (simp only: bit.conj_one_right)
qed


lemma pack31_uint:
  "uint (pack31 h0 h1 h2 h3) =
     push_bit 24 (uint h0 AND 0x7F) OR push_bit 16 (uint h1) OR push_bit 8 (uint h2) OR uint h3"
proof -
  have a: "uint (push_bit 24 ((ucast h0 :: int64) AND 0x7F)) = push_bit 24 (uint h0 AND 0x7F)"
    by (rule bit_eqI) (auto simp add: bit_simps dest: bit_imp_le_length)
  have b: "uint (push_bit 16 (ucast h1 :: int64)) = push_bit 16 (uint h1)"
    by (rule bit_eqI) (auto simp add: bit_simps dest: bit_imp_le_length)
  have c: "uint (push_bit 8 (ucast h2 :: int64)) = push_bit 8 (uint h2)"
    by (rule bit_eqI) (auto simp add: bit_simps dest: bit_imp_le_length)
  have "(0xFF :: int64) = mask 8"
    by (simp add: mask_eq_exp_minus_1)
  then have "(ucast h3 :: int64) AND 0xFF = take_bit 8 (ucast h3)"
    by (simp only: take_bit_eq_mask)
  also have "\<dots> = ucast h3"
    by (rule bit_eqI) (auto simp add: bit_simps dest: bit_imp_le_length)
  finally have d: "uint ((ucast h3 :: int64) AND 0xFF) = uint h3"
    by (simp add: uint_up_ucast is_up)
  show ?thesis
    by (simp only: pack31_def and_ff_byte uint_or a b c d)
qed

lemma uint_byte_lt: "uint (h :: byte) < 256"
  using uint_bounded [of h] by simp

lemma pack31_bounds: "0 \<le> uint (pack31 h0 h1 h2 h3) \<and> uint (pack31 h0 h1 h2 h3) < 2 ^ 31"
proof -
  have "uint h0 AND 0x7F \<le> 0x7F"
    by (rule AND_upper2) simp
  then have a: "push_bit 24 (uint h0 AND 0x7F) < 2 ^ 31"
    by (simp add: push_bit_eq_mult)
  have b: "push_bit 16 (uint h1) < 2 ^ 31"
    using uint_byte_lt [of h1] by (simp add: push_bit_eq_mult)
  have c: "push_bit 8 (uint h2) < 2 ^ 31"
    using uint_byte_lt [of h2] by (simp add: push_bit_eq_mult)
  have d: "uint h3 < 2 ^ 31"
    using uint_byte_lt [of h3] by simp
  have cd: "push_bit 8 (uint h2) OR uint h3 < 2 ^ 31"
    by (rule OR_upper [OF _ c d]) simp
  have bcd: "push_bit 16 (uint h1) OR (push_bit 8 (uint h2) OR uint h3) < 2 ^ 31"
    by (rule OR_upper [OF _ b cd]) simp
  have nn: "0 \<le> push_bit 24 (uint h0 AND 0x7F)"
    by simp
  have "push_bit 24 (uint h0 AND 0x7F) OR (push_bit 16 (uint h1) OR (push_bit 8 (uint h2) OR uint h3)) < 2 ^ 31"
    using nn a bcd by (rule OR_upper)
  then show ?thesis
    by (simp add: pack31_uint)
qed


declare FormatUint.simps [simp del]

lemma digit_of_char_of: "d < 10 \<Longrightarrow> digit_of (char_of (48 + d)) = Some d"
  by (simp add: digit_of_def is_digit_def)

lemma parse_digits_append:
  "parse_digits acc (xs @ ys) =
     (case parse_digits acc xs of None \<Rightarrow> None | Some a \<Rightarrow> parse_digits a ys)"
  by (induction xs arbitrary: acc) (auto split: option.splits)

lemma parse_digits_FormatUint:
  "parse_digits acc (FormatUint n) = Some (acc * 10 ^ length (FormatUint n) + n)"
proof (induction n arbitrary: acc rule: FormatUint.induct)
  case (1 n)
  show ?case
  proof (cases "n < 10")
    case True
    then show ?thesis
      by (subst (1 2) FormatUint.simps) (simp add: digit_of_char_of)
  next
    case False
    have "parse_digits acc (FormatUint n) =
            parse_digits acc (FormatUint (n div 10) @ [char_of (48 + n mod 10)])"
      using False by (subst FormatUint.simps) simp
    also have "\<dots> = Some (10 * (acc * 10 ^ length (FormatUint (n div 10)) + n div 10) + n mod 10)"
      using False by (simp add: parse_digits_append "1.IH" digit_of_char_of)
    finally have step: "parse_digits acc (FormatUint n) =
        Some (10 * (acc * 10 ^ length (FormatUint (n div 10)) + n div 10) + n mod 10)" .
    have "length (FormatUint n) = Suc (length (FormatUint (n div 10)))"
      using False by (subst FormatUint.simps) simp
    then have eq: "acc * 10 ^ length (FormatUint n) + n
                 = 10 * (acc * 10 ^ length (FormatUint (n div 10)) + n div 10) + n mod 10"
      by (simp add: algebra_simps)
    show ?thesis by (simp only: step eq)
  qed
qed

lemma FormatUint_nonempty: "FormatUint n \<noteq> []"
  by (subst FormatUint.simps) simp

lemma decimal_value_FormatUint: "decimal_value (FormatUint n) = Some n"
  by (simp add: decimal_value_def FormatUint_nonempty parse_digits_FormatUint)

lemma length_FormatUint: "n < 10 ^ k \<Longrightarrow> 0 < k \<Longrightarrow> length (FormatUint n) \<le> k"
proof (induction n arbitrary: k rule: FormatUint.induct)
  case (1 n)
  show ?case
  proof (cases "n < 10")
    case True
    then show ?thesis
      using "1.prems" by (subst FormatUint.simps) simp
  next
    case False
    obtain j where k: "k = Suc j"
      using "1.prems"(2) by (cases k) auto
    have j: "0 < j"
      using False "1.prems"(1) k by (cases j) auto
    have "n div 10 < 10 ^ j"
      using "1.prems"(1) k by (simp add: less_mult_imp_div_less mult.commute)
    then have "length (FormatUint (n div 10)) \<le> j"
      using False j by (intro "1.IH") simp_all
    then show ?thesis
      using False k by (subst FormatUint.simps) simp
  qed
qed

lemma is_digit_char_of: "(d :: nat) < 10 \<Longrightarrow> is_digit (char_of (48 + d))"
  by (simp add: is_digit_def)

lemma digits_FormatUint: "list_all is_digit (FormatUint n)"
proof (induction n rule: FormatUint.induct)
  case (1 n)
  show ?case
  proof (cases "n < 10")
    case True
    then show ?thesis
      by (subst FormatUint.simps) (simp add: is_digit_char_of)
  next
    case False
    then show ?thesis
      using "1.IH" by (subst FormatUint.simps) (simp add: is_digit_char_of)
  qed
qed

lemma parse_digits_zeros: "parse_digits 0 (replicate k CHR ''0'') = Some 0"
  by (induction k) (simp_all add: digit_of_def is_digit_def)

lemma decimal_value_zero_pad:
  "decimal_value (zero_pad k (FormatUint n)) = Some n"
proof -
  have "parse_digits 0 (zero_pad k (FormatUint n)) = parse_digits 0 (FormatUint n)"
    by (simp add: zero_pad_def parse_digits_append parse_digits_zeros)
  then show ?thesis
    using decimal_value_FormatUint [of n]
    by (simp add: decimal_value_def zero_pad_def FormatUint_nonempty)
qed

lemma length_zero_pad:
  "length ds \<le> k \<Longrightarrow> length (zero_pad k ds) = k"
  by (simp add: zero_pad_def)

lemma digits_zero_pad: "list_all is_digit ds \<Longrightarrow> list_all is_digit (zero_pad k ds)"
  by (auto simp add: zero_pad_def is_digit_def list_all_iff)


lemma sint_word_of_int_64:
  "- (2 ^ 63) \<le> k \<Longrightarrow> k < 2 ^ 63 \<Longrightarrow> sint (word_of_int k :: int64) = k"
  by (simp add: sint_sbintrunc' signed_take_bit_int_eq_self)

lemma sint_small: "0 \<le> k \<Longrightarrow> k < 2 ^ 63 \<Longrightarrow> sint (word_of_int k :: int64) = k"
  by (rule sint_word_of_int_64) simp_all

lemma sint_eq_uint_small: "uint (w :: int64) < 2 ^ 63 \<Longrightarrow> sint w = uint w"
  using sint_small [of "uint w"] by simp

lemma pow10_le: "n \<le> 18 \<Longrightarrow> (10 :: int) ^ n \<le> 10 ^ 18"
  by (rule power_increasing) simp_all

lemma sint_Pow10_int:
  "0 \<le> n \<Longrightarrow> sint (Pow10_int n) = (if n \<le> 18 then 10 ^ nat n else - (2 ^ 63))"
proof (cases "n \<le> 18")
  case True
  assume "0 \<le> n"
  have "(10 :: int) ^ nat n \<le> 10 ^ 18"
    using True by (intro pow10_le) simp
  then have "sint (word_of_int (10 ^ nat n) :: int64) = 10 ^ nat n"
    by (intro sint_small) simp_all
  then show ?thesis
    using True \<open>0 \<le> n\<close> by (simp add: Pow10_int_def)
next
  case False
  have "sint (word_of_int (- (2 ^ 63)) :: int64) = - (2 ^ 63)"
    by (rule sint_word_of_int_64) simp_all
  then show ?thesis
    using False by (simp add: Pow10_int_def)
qed

lemma Pow10_int_nonzero: "0 \<le> n \<Longrightarrow> Pow10_int n \<noteq> 0"
proof
  assume "0 \<le> n" and "Pow10_int n = 0"
  then have "(if n \<le> 18 then 10 ^ nat n else - (2 ^ 63)) = (0 :: int)"
    using sint_Pow10_int [of n] by simp
  then show False
    by (simp split: if_splits)
qed

lemma mod_pow10_large:
  assumes "0 \<le> v" "v < 2 ^ 31" "18 < n"
  shows "v mod 10 ^ nat n = (v :: int)"
proof -
  have "(10 :: int) ^ 19 \<le> 10 ^ nat n"
    using assms(3) by (intro power_increasing) simp_all
  then have "v < 10 ^ nat n"
    using assms(2) by simp
  then show ?thesis
    using assms(1) by simp
qed

lemma sint_go_rem:
  assumes "0 \<le> sint otp" "sint otp < 2 ^ 31" "0 \<le> n"
  shows "sint (go_rem otp (Pow10_int n)) = sint otp mod 10 ^ nat n"
proof -
  let ?v = "sint otp"
  have smod: "?v smod d = ?v mod \<bar>d\<bar>" for d
    using assms(1) by (cases "?v = 0") (simp_all add: signed_modulo_int_def)
  have r: "?v smod sint (Pow10_int n) = ?v mod 10 ^ nat n"
  proof (cases "n \<le> 18")
    case True
    then show ?thesis
      using assms(3) by (simp add: smod sint_Pow10_int)
  next
    case False
    then have "?v mod 10 ^ nat n = ?v"
      using assms by (intro mod_pow10_large) simp_all
    then show ?thesis
      using False assms by (simp add: smod sint_Pow10_int)
  qed
  have "0 \<le> ?v mod 10 ^ nat n" "?v mod 10 ^ nat n \<le> ?v"
    using assms(1) by (simp_all add: zmod_le_nonneg_dividend)
  then have "sint (word_of_int (?v mod 10 ^ nat n) :: int64) = ?v mod 10 ^ nat n"
    using assms(2) by (intro sint_small) simp_all
  then show ?thesis
    by (simp add: go_rem_def r)
qed

lemma render_nonneg:
  assumes "0 \<le> sint otp" "sint otp < 2 ^ 31" "0 \<le> sint (TokenLength cfg)"
  shows "render cfg otp =
           Inr (Sprintf_0d (sint (TokenLength cfg)) (sint otp mod 10 ^ nat (sint (TokenLength cfg))))"
  using assms by (simp add: render_def Pow10_int_nonzero sint_go_rem)

lemma render_negative:
  "sint (TokenLength cfg) < 0 \<Longrightarrow> render cfg otp = Inl (Panic DivideByZero)"
  by (simp add: render_def Pow10_int_def)


lemma ucast_and_ff: "(ucast ((w :: int64) AND 0xff) :: byte) = ucast w"
proof -
  have "(0xff :: int64) = mask 8"
    by (simp add: mask_eq_exp_minus_1)
  then have "w AND 0xff = take_bit 8 w"
    by (simp only: take_bit_eq_mask)
  also have "(ucast (take_bit 8 w) :: byte) = ucast w"
    by (rule bit_word_eqI) (auto simp add: bit_simps)
  finally show ?thesis .
qed

lemma ucast_signed_drop_bit:
  "k + 8 \<le> 64 \<Longrightarrow> (ucast (signed_drop_bit k (w :: int64)) :: byte) = ucast (drop_bit k w)"
  by (rule bit_word_eqI) (auto simp add: bit_simps bit_signed_drop_bit_iff)

lemma timeBytes_loop_PutUint64:
  "timeBytes_loop 7 timeStep (replicate 8 0) = PutUint64 timeStep"
proof -
  have "timeBytes_loop 7 timeStep [b0, b1, b2, b3, b4, b5, b6, b7] =
          [ucast (signed_drop_bit 56 timeStep), ucast (signed_drop_bit 48 timeStep),
           ucast (signed_drop_bit 40 timeStep), ucast (signed_drop_bit 32 timeStep),
           ucast (signed_drop_bit 24 timeStep), ucast (signed_drop_bit 16 timeStep),
           ucast (signed_drop_bit 8 timeStep), ucast timeStep]" for b0 b1 b2 b3 b4 b5 b6 b7
    by (simp add: eval_nat_numeral ucast_and_ff)
  then show ?thesis
    by (simp add: eval_nat_numeral PutUint64_def ucast_signed_drop_bit)
qed



lemma spec_offset_le: "spec_offset digest \<le> 15"
  unfolding spec_offset_def by (rule offset_le_15)

lemma truncate_digest:
  assumes "length digest = 20"
  shows "dynamic_truncate digest = Inr (truncated digest)"
proof -
  have "truncate_offset digest = Inr (spec_offset digest)"
    using assms by (simp add: truncate_offset_20 spec_offset_def)
  moreover have "spec_offset digest + 3 < length digest"
    using assms spec_offset_le [of digest] by simp
  ultimately show ?thesis
    by (simp add: dynamic_truncate_def truncate_at_in_range truncated_def)
qed

lemma uint_truncated: "uint (truncated digest) = spec_binCode digest"
  by (simp only: truncated_def pack31_uint spec_binCode_def)

lemma spec_binCode_bounds: "0 \<le> spec_binCode digest \<and> spec_binCode digest < 2 ^ 31"
  using pack31_bounds [of "digest ! spec_offset digest" "digest ! (spec_offset digest + 1)"
      "digest ! (spec_offset digest + 2)" "digest ! (spec_offset digest + 3)"]
  by (simp only: uint_truncated [unfolded truncated_def])

lemma sint_truncated: "sint (truncated digest) = spec_binCode digest"
proof -
  have "uint (truncated digest) < 2 ^ 63"
    using spec_binCode_bounds [of digest] by (simp add: uint_truncated)
  then have "sint (truncated digest) = uint (truncated digest)"
    by (rule sint_eq_uint_small)
  then show ?thesis
    by (simp only: uint_truncated)
qed

lemma render_truncated:
  assumes "0 \<le> sint (TokenLength cfg)"
  shows "render cfg (truncated digest) = Inr (otp_string cfg digest)"
proof -
  have "0 \<le> sint (truncated digest)" "sint (truncated digest) < 2 ^ 31"
    using spec_binCode_bounds [of digest] by (simp_all only: sint_truncated)
  then have "render cfg (truncated digest) =
      Inr (Sprintf_0d (sint (TokenLength cfg))
             (sint (truncated digest) mod 10 ^ nat (sint (TokenLength cfg))))"
    using assms by (rule render_nonneg)
  then show ?thesis
    by (simp only: sint_truncated otp_string_def)
qed

lemma GenerateOTP_code:
  assumes "Seed t \<noteq> []" "counterBytes \<noteq> []" "0 \<le> sint (TokenLength cfg)"
  shows "GenerateOTP cfg t counterBytes = Inr (otp_string cfg (hmac_sha1 (Seed t) counterBytes))"
  using assms
  by (simp add: GenerateOTP_def truncate_digest length_hmac_sha1 render_truncated)

lemma GenerateOTP_panic:
  assumes "Seed t \<noteq> []" "counterBytes \<noteq> []" "sint (TokenLength cfg) < 0"
  shows "GenerateOTP cfg t counterBytes = Inl (Panic DivideByZero)"
  using assms
  by (simp add: GenerateOTP_def truncate_digest length_hmac_sha1 render_negative)

lemma GenerateOTP_no_seed:
  "Seed t = [] \<Longrightarrow> GenerateOTP cfg t counterBytes = Inl (Error ''OTP has no seed.'')"
  by (simp add: GenerateOTP_def)

lemma GenerateOTP_no_counter:
  "Seed t \<noteq> [] \<Longrightarrow> GenerateOTP cfg t [] = Inl (Error ''Counter is nil or otherwise malformed.'')"
  by (simp add: GenerateOTP_def)

lemma PutUint64_nonempty: "PutUint64 w \<noteq> []"
  by (simp add: PutUint64_def)

lemma GenerateTOTP_eq:
  "StepSeconds cfg \<noteq> 0 \<Longrightarrow>
   GenerateTOTP cfg t genTime = GenerateOTP cfg t (PutUint64 (go_div genTime (StepSeconds cfg)))"
  by (simp add: GenerateTOTP_def timeBytes_loop_PutUint64)

lemma GenerateTOTP_code:
  assumes "Seed t \<noteq> []" "StepSeconds cfg \<noteq> 0" "0 \<le> sint (TokenLength cfg)"
  shows "GenerateTOTP cfg t genTime = Inr (totp_string cfg t genTime)"
  using assms by (simp add: GenerateTOTP_eq GenerateOTP_code PutUint64_nonempty totp_string_def)

lemma GenerateTOTP_no_seed:
  assumes "Seed t = []" "StepSeconds cfg \<noteq> 0"
  shows "GenerateTOTP cfg t genTime = Inl (Error ''OTP has no seed.'')"
  using assms by (simp add: GenerateTOTP_eq GenerateOTP_no_seed)


lemma VerifyChallenge_exact:
  assumes "Seed t \<noteq> []" "StepSeconds cfg \<noteq> 0" "0 \<le> sint (TokenLength cfg)"
  shows "VerifyChallenge cfg clock t challenge False = Inr (totp_string cfg t (clock 0) = challenge)"
  using assms by (simp add: VerifyChallenge_def GenerateTOTP_code)

lemma VerifyChallenge_no_seed:
  assumes "Seed t = []" "StepSeconds cfg \<noteq> 0"
  shows "VerifyChallenge cfg clock t challenge drift = Inr False"
  using assms by (simp add: VerifyChallenge_def GenerateTOTP_no_seed)

subsection \<open>Counters and division\<close>

lemma uint_ucast_byte: "uint (ucast (w :: uint64) :: byte) = uint w mod 256"
  by (simp add: unsigned_ucast_eq take_bit_eq_mod)

lemma uint_drop_bit_64: "uint (drop_bit k (w :: uint64)) = uint w div 2 ^ k"
proof -
  have "uint (drop_bit k w) = drop_bit k (take_bit LENGTH(64) (uint w))"
    by (rule unsigned_drop_bit_eq)
  also have "take_bit LENGTH(64) (uint w) = uint w"
    by (rule take_bit_int_eq_self) (use uint_bounded [of w] in simp_all)
  finally show ?thesis
    by (simp only: drop_bit_eq_div)
qed

lemma be_value_PutUint64: "be_value (PutUint64 w) = uint w"
proof -
  let ?x = "uint w"
  have top: "?x div 2 ^ 56 mod 256 = ?x div 2 ^ 56"
  proof -
    have "?x < 2 ^ 64" using uint_bounded [of w] by simp
    then have "?x div 2 ^ 56 < 256" by simp
    moreover have "0 \<le> ?x div 2 ^ 56" by (simp add: pos_imp_zdiv_nonneg_iff)
    ultimately show ?thesis by (simp only: mod_pos_pos_trivial)
  qed
  have d: "?x div 2 ^ 56 = ?x div 2 ^ 48 div 256" "?x div 2 ^ 48 = ?x div 2 ^ 40 div 256"
    "?x div 2 ^ 40 = ?x div 2 ^ 32 div 256" "?x div 2 ^ 32 = ?x div 2 ^ 24 div 256"
    "?x div 2 ^ 24 = ?x div 2 ^ 16 div 256" "?x div 2 ^ 16 = ?x div 2 ^ 8 div 256"
    "?x div 2 ^ 8 = ?x div 256"
    by (simp_all add: zdiv_zmult2_eq)
  have "be_value (PutUint64 w) =
      256 * (256 * (256 * (256 * (256 * (256 * (256 * (?x div 2 ^ 56 mod 256) + ?x div 2 ^ 48 mod 256)
        + ?x div 2 ^ 40 mod 256) + ?x div 2 ^ 32 mod 256) + ?x div 2 ^ 24 mod 256)
        + ?x div 2 ^ 16 mod 256) + ?x div 2 ^ 8 mod 256) + ?x mod 256"
    by (simp add: be_value_def PutUint64_def uint_ucast_byte uint_drop_bit_64)
  also have "\<dots> = ?x"
    unfolding top by (simp only: d mult_div_mod_eq)
  finally show ?thesis .
qed

lemma sdiv_nonneg: "0 \<le> a \<Longrightarrow> 0 < b \<Longrightarrow> a sdiv b = a div (b :: int)"
  by (cases "a = 0") (simp_all add: signed_divide_int_def)

lemma sdiv_neg: "a < 0 \<Longrightarrow> 0 < b \<Longrightarrow> a sdiv b = - ((- a) div (b :: int))"
  by (simp add: signed_divide_int_def)

lemma sdiv_bounds:
  assumes "0 < (b :: int)"
  shows "(0 \<le> a \<and> 0 \<le> a sdiv b \<and> a sdiv b \<le> a) \<or> (a < 0 \<and> a \<le> a sdiv b \<and> a sdiv b \<le> 0)"
proof (cases "0 \<le> a")
  case True
  have "a div b \<le> a"
  proof (cases "a = 0")
    case True
    then show ?thesis by simp
  next
    case False
    then have "0 < a" using \<open>0 \<le> a\<close> by simp
    then show ?thesis by (rule int_div_le_self)
  qed
  moreover have "0 \<le> a div b"
    using True assms by (simp add: pos_imp_zdiv_nonneg_iff)
  ultimately show ?thesis
    using True assms by (simp add: sdiv_nonneg)
next
  case False
  then have neg: "a < 0" by simp
  then have "0 < - a" by simp
  then have "(- a) div b \<le> - a"
    by (rule int_div_le_self)
  moreover have "0 \<le> (- a) div b"
    using neg assms by (simp add: pos_imp_zdiv_nonneg_iff)
  ultimately show ?thesis
    using neg assms by (simp add: sdiv_neg)
qed

lemma sint_go_div_pos:
  assumes "0 < sint b"
  shows "sint (go_div a b) = sint a sdiv sint b"
proof -
  have bounds: "- (2 ^ 63) \<le> sint a" "sint a < 2 ^ 63"
    using sint_range_size [of a] by (simp_all add: word_size)
  have "- (2 ^ 63) \<le> sint a sdiv sint b" "sint a sdiv sint b < 2 ^ 63"
    using sdiv_bounds [OF assms, of "sint a"] bounds by auto
  then show ?thesis
    unfolding go_div_def by (rule sint_word_of_int_64)
qed

subsection \<open>Rendered codes\<close>

lemma digit_chars:
  "char_of (48 :: nat) = CHR ''0''" "char_of (49 :: nat) = CHR ''1''"
  "char_of (50 :: nat) = CHR ''2''" "char_of (51 :: nat) = CHR ''3''"
  "char_of (52 :: nat) = CHR ''4''" "char_of (53 :: nat) = CHR ''5''"
  "char_of (54 :: nat) = CHR ''6''" "char_of (55 :: nat) = CHR ''7''"
  "char_of (56 :: nat) = CHR ''8''" "char_of (57 :: nat) = CHR ''9''"
  by code_simp+

lemma Sprintf_0d_padded:
  assumes "0 < n" "n \<le> 10000009" "0 \<le> v"
  shows "Sprintf_0d n v = zero_pad (nat n) (FormatUint (nat v))"
proof -
  have "\<bar>n\<bar> div 10 \<le> 1000000"
    using assms(1,2) by simp
  then show ?thesis
    using assms by (simp add: Sprintf_0d_def)
qed

lemma Sprintf_0d_too_large:
  assumes "10000009 < n"
  shows "Sprintf_0d n v = NOVERB v"
proof -
  have "1000000 < \<bar>n\<bar> div 10"
    using assms by simp
  then show ?thesis
    using assms by (simp add: Sprintf_0d_def)
qed

lemma Sprintf_0d_zero: "Sprintf_0d 0 0 = ''0''"
  by (simp add: Sprintf_0d_def FormatInt_def FormatUint.simps digit_chars)

lemma mod_pow10_bounds:
  "0 \<le> (b :: int) mod 10 ^ k \<and> nat (b mod 10 ^ k) < 10 ^ k"
proof -
  have "0 \<le> b mod 10 ^ k" "b mod 10 ^ k < 10 ^ k"
    by simp_all
  then show ?thesis
    by (simp add: nat_less_iff)
qed

lemma otp_string_padded:
  assumes "0 < sint (TokenLength cfg)" "sint (TokenLength cfg) \<le> 10000009"
  shows "otp_string cfg digest =
           zero_pad (nat (sint (TokenLength cfg)))
             (FormatUint (nat (spec_binCode digest mod 10 ^ nat (sint (TokenLength cfg)))))"
  using assms mod_pow10_bounds [of "spec_binCode digest" "nat (sint (TokenLength cfg))"]
  by (simp add: otp_string_def Sprintf_0d_padded)

lemma length_otp_string:
  assumes "0 < sint (TokenLength cfg)" "sint (TokenLength cfg) \<le> 10000009"
  shows "length (otp_string cfg digest) = nat (sint (TokenLength cfg))"
proof -
  let ?k = "nat (sint (TokenLength cfg))"
  have "length (FormatUint (nat (spec_binCode digest mod 10 ^ ?k))) \<le> ?k"
    using mod_pow10_bounds [of "spec_binCode digest" ?k] assms(1)
    by (intro length_FormatUint) simp_all
  then show ?thesis
    by (simp only: otp_string_padded [OF assms] length_zero_pad)
qed

lemma digits_otp_string:
  assumes "0 < sint (TokenLength cfg)" "sint (TokenLength cfg) \<le> 10000009"
  shows "list_all is_digit (otp_string cfg digest)"
  by (simp only: otp_string_padded [OF assms] digits_zero_pad digits_FormatUint)

lemma decimal_value_otp_string:
  assumes "0 \<le> sint (TokenLength cfg)" "sint (TokenLength cfg) \<le> 10000009"
  shows "decimal_value (otp_string cfg digest) =
           Some (nat (spec_binCode digest mod 10 ^ nat (sint (TokenLength cfg))))"
proof (cases "sint (TokenLength cfg) = 0")
  case True
  then show ?thesis
    by (simp add: otp_string_def Sprintf_0d_zero decimal_value_def digit_of_def is_digit_def)
next
  case False
  then have "0 < sint (TokenLength cfg)"
    using assms(1) by simp
  then show ?thesis
    by (simp only: otp_string_padded [OF _ assms(2)] decimal_value_zero_pad)
qed

lemma otp_string_too_large:
  assumes "10000009 < sint (TokenLength cfg)"
  shows "otp_string cfg digest = NOVERB (spec_binCode digest)"
proof -
  have "spec_binCode digest mod 10 ^ nat (sint (TokenLength cfg)) = spec_binCode digest"
    using spec_binCode_bounds [of digest] assms by (intro mod_pow10_large) simp_all
  then show ?thesis
    using assms by (simp add: otp_string_def Sprintf_0d_too_large)
qed

section \<open>Evaluating HMAC-SHA1\<close>

lemma take_bit_32_uint32: "take_bit 32 (x :: uint32) = x"
  by (simp add: take_bit_word_eq_self)

lemma NOT_uint32: "NOT (x :: uint32) = x XOR 0xFFFFFFFF"
proof -
  have "(0xFFFFFFFF :: uint32) = - 1" by simp
  then show ?thesis by (simp only: bit.xor_one_right)
qed

lemma sha1_f_eval:
  "sha1_f t b c d =
     (if t < 20 then (b AND c) OR ((b XOR 0xFFFFFFFF) AND d)
      else if t < 40 then b XOR c XOR d
      else if t < 60 then ((b OR c) AND d) OR (b AND c)
      else b XOR c XOR d)"
  unfolding sha1_f_def NOT_uint32 ..

lemma RotateLeft32_eval:
  "RotateLeft32 x k = take_bit 32 (push_bit k x) OR drop_bit (32 - k) x"
  by (simp add: RotateLeft32_def take_bit_32_uint32)

lemma sha1_rounds_eval:
  "sha1_rounds t (w # ws) (a, b, c, d, e) =
     sha1_rounds (t + 1) ws
       (take_bit 32 (RotateLeft32 a 5 + sha1_f t b c d + e + w + sha1_K t), a, RotateLeft32 b 30, c, d)"
  by (simp add: take_bit_32_uint32)

lemma sha1_schedule_numeral:
  "sha1_schedule (numeral k) win =
     hd win # sha1_schedule (pred_numeral k)
       (tl win @ [RotateLeft32 (win ! 13 XOR win ! 8 XOR win ! 2 XOR win ! 0) 1])"
  by (simp add: numeral_eq_Suc)

lemma sha1_add_eval:
  "sha1_add (h0, h1, h2, h3, h4) (a, b, c, d, e) =
     (take_bit 32 (h0 + a), take_bit 32 (h1 + b), take_bit 32 (h2 + c), take_bit 32 (h3 + d),
      take_bit 32 (h4 + e))"
  by (simp add: take_bit_32_uint32)

lemmas sha1_eval = sha1_block_def sha1_schedule_numeral sha1_rounds_eval sha1_add_eval
  RotateLeft32_eval sha1_f_eval sha1_K_def



lemma sha1_blocks_short: "length p < 64 \<Longrightarrow> sha1_blocks h p = h"
  by simp

lemma sha1_blocks_append:
  "length b = 64 \<Longrightarrow> sha1_blocks h (b @ p) = sha1_blocks (sha1_block h b) p"
  by (subst sha1_blocks.simps) simp

lemma length_sha1_padding:
  "length (sha1_padding len) = (if len mod 64 < 56 then 64 - len mod 64 else 128 - len mod 64)"
  by (auto simp add: sha1_padding_def PutUint64_def)

lemma length_hmac_key: "length (hmac_key key) = 64"
  by (simp add: hmac_key_def length_sha1_Sum)

lemma sha1_Sum_short:
  assumes "length m < 56"
  shows "sha1_Sum m = sha1_out (sha1_block sha1_init (m @ sha1_padding (length m)))"
proof -
  have len: "length (m @ sha1_padding (length m)) = 64"
    using assms by (simp add: length_sha1_padding)
  have "sha1_blocks sha1_init (m @ sha1_padding (length m)) =
          sha1_blocks (sha1_block sha1_init (m @ sha1_padding (length m))) []"
    using sha1_blocks_append [OF len, of sha1_init "[]"] by simp
  then show ?thesis
    by (simp add: sha1_Sum_def sha1_blocks_short)
qed

lemma sha1_Sum_block_short:
  assumes "length b = 64" "length m < 56"
  shows "sha1_Sum (b @ m) = sha1_out (sha1_block (sha1_block sha1_init b) (m @ sha1_padding (64 + length m)))"
proof -
  have len: "length (m @ sha1_padding (64 + length m)) = 64"
    using assms by (simp add: length_sha1_padding)
  have "sha1_blocks sha1_init (b @ (m @ sha1_padding (64 + length m)))
          = sha1_blocks (sha1_block sha1_init b) (m @ sha1_padding (64 + length m))"
    using assms(1) by (rule sha1_blocks_append)
  also have "\<dots> = sha1_blocks (sha1_block (sha1_block sha1_init b) (m @ sha1_padding (64 + length m))) []"
    using sha1_blocks_append [OF len, of _ "[]"] by simp
  also have "\<dots> = sha1_block (sha1_block sha1_init b) (m @ sha1_padding (64 + length m))"
    by (simp add: sha1_blocks_short)
  finally show ?thesis
    using assms by (simp add: sha1_Sum_def)
qed

lemma hmac_sha1_short:
  assumes "length msg < 56"
  shows "hmac_sha1 key msg =
     sha1_out (sha1_block (sha1_block sha1_init (hmac_opad key))
       (sha1_out (sha1_block (sha1_block sha1_init (hmac_ipad key)) (msg @ sha1_padding (64 + length msg)))
          @ sha1_padding 84))"
proof -
  have i: "length (hmac_ipad key) = 64" and o: "length (hmac_opad key) = 64"
    by (simp_all add: hmac_ipad_def hmac_opad_def length_hmac_key)
  show ?thesis
    unfolding hmac_sha1_def
    by (simp add: sha1_Sum_block_short [OF i assms] sha1_Sum_block_short [OF o] length_sha1_out)
qed

text \<open>The first test vector of FIPS 180: the digest of the three bytes \<open>abc\<close>.\<close>

lemma sha1_Sum_abc:
  "sha1_Sum [0x61, 0x62, 0x63] =
     [0xA9, 0x99, 0x3E, 0x36, 0x47, 0x06, 0x81, 0x6A, 0xBA, 0x3E, 0x25, 0x71, 0x78, 0x50, 0xC2, 0x6C,
      0x9C, 0xD0, 0xD8, 0x9D]"
proof -
  have blk:
    "sha1_block sha1_init ([0x61, 0x62, 0x63] @ sha1_padding (length ([0x61, 0x62, 0x63] :: byte list)))
       = (2845392438, 1191608682, 3124634993, 2018558572, 2630932637)"
    by (simp del: sha1_rounds.simps(2) sha1_add.simps
        add: sha1_eval sha1_init_def sha1_padding_def PutUint64_def replicate_numeral)
  have len: "length ([0x61, 0x62, 0x63] :: byte list) < 56"
    by simp
  show ?thesis
    by (simp only: sha1_Sum_short [OF len] blk) (simp add: PutUint32_def)
qed

subsection \<open>The test seed\<close>

lemma ipad_state: "sha1_block sha1_init (hmac_ipad testSeedBytes) = (2049113127, 3107913, 1494473299, 1337403178, 391039980)"
  by (simp del: sha1_rounds.simps(2) sha1_add.simps
      add: sha1_eval sha1_init_def hmac_ipad_def hmac_key_def testSeedBytes_def replicate_numeral)

lemma opad_state: "sha1_block sha1_init (hmac_opad testSeedBytes) = (2362085594, 2393452332, 467183182, 61077455, 3327423296)"
  by (simp del: sha1_rounds.simps(2) sha1_add.simps
      add: sha1_eval sha1_init_def hmac_opad_def hmac_key_def testSeedBytes_def replicate_numeral)

lemma hmac_step_3333:
  "hmac_sha1 testSeedBytes [0, 0, 0, 0, 0, 0, 13, 5] =
     [83, 148, 81, 136, 233, 56, 109, 126, 195, 118, 122, 42, 98, 180, 102, 173, 76, 92, 92, 155]"
proof -
  have inner:
    "sha1_block (2049113127, 3107913, 1494473299, 1337403178, 391039980)
       ([0, 0, 0, 0, 0, 0, 13, 5] @ sha1_padding (64 + length ([0, 0, 0, 0, 0, 0, 13, 5] :: byte list)))
       = (2672941436, 826582834, 2633152001, 1965927581, 3664909529)"
    by (simp del: sha1_rounds.simps(2) sha1_add.simps add: sha1_eval sha1_padding_def PutUint64_def PutUint32_def replicate_numeral)
  have outer:
    "sha1_block (2362085594, 2393452332, 467183182, 61077455, 3327423296)
       (sha1_out (2672941436, 826582834, 2633152001, 1965927581, 3664909529) @ sha1_padding 84)
       = (1402229128, 3912789374, 3279321642, 1655989933, 1281121435)"
    by (simp del: sha1_rounds.simps(2) sha1_add.simps add: sha1_eval sha1_padding_def PutUint64_def PutUint32_def replicate_numeral)
  have out:
    "sha1_out (1402229128, 3912789374, 3279321642, 1655989933, 1281121435) =
       [83, 148, 81, 136, 233, 56, 109, 126, 195, 118, 122, 42, 98, 180, 102, 173, 76, 92, 92,
        155]"
    by (simp add: PutUint32_def)
  have len: "length ([0, 0, 0, 0, 0, 0, 13, 5] :: byte list) < 56"
    by simp
  show ?thesis
    by (simp only: hmac_sha1_short [OF len] ipad_state opad_state inner outer out)
qed

lemma binCode_step_3333: "spec_binCode (hmac_sha1 testSeedBytes (PutUint64 3333)) = 711111782"
proof -
  have c: "PutUint64 3333 = [0, 0, 0, 0, 0, 0, 13, 5]"
    by (simp add: PutUint64_def)
  show ?thesis
    by (simp only: c hmac_step_3333) (simp add: spec_binCode_def spec_offset_def)
qed

lemma otp_step_3333: "otp_string default_config (hmac_sha1 testSeedBytes (PutUint64 3333)) = ''111782''"
  by (simp only: otp_string_def binCode_step_3333)
     (simp add: default_config_def Sprintf_0d_def zero_pad_def FormatUint.simps digit_chars)

lemma totp_step_3333: "totp_string default_config testToken 100000 = ''111782''"
proof -
  have "go_div 100000 (StepSeconds default_config) = 3333"
    by (simp add: default_config_def go_div_def signed_divide_int_def)
  then show ?thesis
    by (simp add: totp_string_def testToken_def otp_step_3333)
qed

lemma hmac_step_0:
  "hmac_sha1 testSeedBytes [0, 0, 0, 0, 0, 0, 0, 0] =
     [82, 6, 60, 214, 183, 126, 29, 52, 167, 60, 109, 26, 25, 227, 216, 84, 39, 227, 126, 33]"
proof -
  have inner:
    "sha1_block (2049113127, 3107913, 1494473299, 1337403178, 391039980)
       ([0, 0, 0, 0, 0, 0, 0, 0] @ sha1_padding (64 + length ([0, 0, 0, 0, 0, 0, 0, 0] :: byte list)))
       = (4241362377, 3500351669, 3720696521, 1992712804, 2583391327)"
    by (simp del: sha1_rounds.simps(2) sha1_add.simps add: sha1_eval sha1_padding_def PutUint64_def PutUint32_def replicate_numeral)
  have outer:
    "sha1_block (2362085594, 2393452332, 467183182, 61077455, 3327423296)
       (sha1_out (4241362377, 3500351669, 3720696521, 1992712804, 2583391327) @ sha1_padding 84)
       = (1376140502, 3078495540, 2805755162, 434362452, 669220385)"
    by (simp del: sha1_rounds.simps(2) sha1_add.simps add: sha1_eval sha1_padding_def PutUint64_def PutUint32_def replicate_numeral)
  have out:
    "sha1_out (1376140502, 3078495540, 2805755162, 434362452, 669220385) =
       [82, 6, 60, 214, 183, 126, 29, 52, 167, 60, 109, 26, 25, 227, 216, 84, 39, 227, 126, 33]"
    by (simp add: PutUint32_def)
  have len: "length ([0, 0, 0, 0, 0, 0, 0, 0] :: byte list) < 56"
    by simp
  show ?thesis
    by (simp only: hmac_sha1_short [OF len] ipad_state opad_state inner outer out)
qed

lemma binCode_step_0: "spec_binCode (hmac_sha1 testSeedBytes (PutUint64 0)) = 104650423"
proof -
  have c: "PutUint64 0 = [0, 0, 0, 0, 0, 0, 0, 0]"
    by (simp add: PutUint64_def)
  show ?thesis
    by (simp only: c hmac_step_0) (simp add: spec_binCode_def spec_offset_def)
qed

lemma otp_step_0: "otp_string default_config (hmac_sha1 testSeedBytes (PutUint64 0)) = ''650423''"
  by (simp only: otp_string_def binCode_step_0)
     (simp add: default_config_def Sprintf_0d_def zero_pad_def FormatUint.simps digit_chars)

lemma totp_step_0: "totp_string default_config testToken (- 1) = ''650423''"
proof -
  have "go_div (- 1) (StepSeconds default_config) = 0"
    by (simp add: default_config_def go_div_def signed_divide_int_def)
  then show ?thesis
    by (simp add: totp_string_def testToken_def otp_step_0)
qed

lemma hmac_step_196:
  "hmac_sha1 testSeedBytes [0, 0, 0, 0, 0, 0, 0, 196] =
     [113, 231, 135, 110, 191, 225, 217, 19, 169, 140, 144, 157, 202, 250, 213, 158, 166, 129,
      198, 20]"
proof -
  have inner:
    "sha1_block (2049113127, 3107913, 1494473299, 1337403178, 391039980)
       ([0, 0, 0, 0, 0, 0, 0, 196] @ sha1_padding (64 + length ([0, 0, 0, 0, 0, 0, 0, 196] :: byte list)))
       = (2256688046, 4123561055, 1017566475, 1145437984, 3345502838)"
    by (simp del: sha1_rounds.simps(2) sha1_add.simps add: sha1_eval sha1_padding_def PutUint64_def PutUint32_def replicate_numeral)
  have outer:
    "sha1_block (2362085594, 2393452332, 467183182, 61077455, 3327423296)
       (sha1_out (2256688046, 4123561055, 1017566475, 1145437984, 3345502838) @ sha1_padding 84)
       = (1910998894, 3219249427, 2844561565, 3405436318, 2793522708)"
    by (simp del: sha1_rounds.simps(2) sha1_add.simps add: sha1_eval sha1_padding_def PutUint64_def PutUint32_def replicate_numeral)
  have out:
    "sha1_out (1910998894, 3219249427, 2844561565, 3405436318, 2793522708) =
       [113, 231, 135, 110, 191, 225, 217, 19, 169, 140, 144, 157, 202, 250, 213, 158, 166, 129,
        198, 20]"
    by (simp add: PutUint32_def)
  have len: "length ([0, 0, 0, 0, 0, 0, 0, 196] :: byte list) < 56"
    by simp
  show ?thesis
    by (simp only: hmac_sha1_short [OF len] ipad_state opad_state inner outer out)
qed

lemma binCode_step_196: "spec_binCode (hmac_sha1 testSeedBytes (PutUint64 196)) = 1071765779"
proof -
  have c: "PutUint64 196 = [0, 0, 0, 0, 0, 0, 0, 196]"
    by (simp add: PutUint64_def)
  show ?thesis
    by (simp only: c hmac_step_196) (simp add: spec_binCode_def spec_offset_def)
qed

lemma otp_step_196: "otp_string default_config (hmac_sha1 testSeedBytes (PutUint64 196)) = ''765779''"
  by (simp only: otp_string_def binCode_step_196)
     (simp add: default_config_def Sprintf_0d_def zero_pad_def FormatUint.simps digit_chars)

lemma totp_step_196: "totp_string default_config testToken 5880 = ''765779''"
proof -
  have "go_div 5880 (StepSeconds default_config) = 196"
    by (simp add: default_config_def go_div_def signed_divide_int_def)
  then show ?thesis
    by (simp add: totp_string_def testToken_def otp_step_196)
qed





lemma hmac_step_65586:
  "hmac_sha1 testSeedBytes [0, 0, 0, 0, 0, 1, 0, 50] =
     [151, 63, 202, 99, 207, 226, 70, 95, 8, 137, 152, 197, 155, 143, 215, 125, 243, 102, 211,
      90]"
proof -
  have inner:
    "sha1_block (2049113127, 3107913, 1494473299, 1337403178, 391039980)
       ([0, 0, 0, 0, 0, 1, 0, 50] @ sha1_padding (64 + length ([0, 0, 0, 0, 0, 1, 0, 50] :: byte list)))
       = (3242046021, 29617411, 1362777347, 4105430119, 3268114577)"
    by (simp del: sha1_rounds.simps(2) sha1_add.simps add: sha1_eval sha1_padding_def PutUint64_def PutUint32_def replicate_numeral)
  have outer:
    "sha1_block (2362085594, 2393452332, 467183182, 61077455, 3327423296)
       (sha1_out (3242046021, 29617411, 1362777347, 4105430119, 3268114577) @ sha1_padding 84)
       = (2537540195, 3487712863, 143235269, 2609895293, 4083602266)"
    by (simp del: sha1_rounds.simps(2) sha1_add.simps add: sha1_eval sha1_padding_def PutUint64_def PutUint32_def replicate_numeral)
  have out:
    "sha1_out (2537540195, 3487712863, 143235269, 2609895293, 4083602266) =
       [151, 63, 202, 99, 207, 226, 70, 95, 8, 137, 152, 197, 155, 143, 215, 125, 243, 102, 211,
        90]"
    by (simp add: PutUint32_def)
  have len: "length ([0, 0, 0, 0, 0, 1, 0, 50] :: byte list) < 56"
    by simp
  show ?thesis
    by (simp only: hmac_sha1_short [OF len] ipad_state opad_state inner outer out)
qed

lemma binCode_step_65586: "spec_binCode (hmac_sha1 testSeedBytes (PutUint64 65586)) = 415603599"
proof -
  have c: "PutUint64 65586 = [0, 0, 0, 0, 0, 1, 0, 50]"
    by (simp add: PutUint64_def)
  show ?thesis
    by (simp only: c hmac_step_65586) (simp add: spec_binCode_def spec_offset_def)
qed

lemma otp_step_65586: "otp_string default_config (hmac_sha1 testSeedBytes (PutUint64 65586)) = ''603599''"
  by (simp only: otp_string_def binCode_step_65586)
     (simp add: default_config_def Sprintf_0d_def zero_pad_def FormatUint.simps digit_chars)

lemma totp_step_65586: "totp_string default_config testToken 1967580 = ''603599''"
proof -
  have "go_div 1967580 (StepSeconds default_config) = 65586"
    by (simp add: default_config_def go_div_def signed_divide_int_def)
  then show ?thesis
    by (simp add: totp_string_def testToken_def otp_step_65586)
qed

lemma hmac_step_65587:
  "hmac_sha1 testSeedBytes [0, 0, 0, 0, 0, 1, 0, 51] =
     [165, 255, 136, 142, 254, 37, 13, 97, 10, 191, 193, 180, 75, 254, 227, 132, 33, 15, 237, 62]"
proof -
  have inner:
    "sha1_block (2049113127, 3107913, 1494473299, 1337403178, 391039980)
       ([0, 0, 0, 0, 0, 1, 0, 51] @ sha1_padding (64 + length ([0, 0, 0, 0, 0, 1, 0, 51] :: byte list)))
       = (3582911347, 326780861, 4142902204, 1213755284, 2124784134)"
    by (simp del: sha1_rounds.simps(2) sha1_add.simps add: sha1_eval sha1_padding_def PutUint64_def PutUint32_def replicate_numeral)
  have outer:
    "sha1_block (2362085594, 2393452332, 467183182, 61077455, 3327423296)
       (sha1_out (3582911347, 326780861, 4142902204, 1213755284, 2124784134) @ sha1_padding 84)
       = (2784987278, 4263841121, 180339124, 1274995588, 554691902)"
    by (simp del: sha1_rounds.simps(2) sha1_add.simps add: sha1_eval sha1_padding_def PutUint64_def PutUint32_def replicate_numeral)
  have out:
    "sha1_out (2784987278, 4263841121, 180339124, 1274995588, 554691902) =
       [165, 255, 136, 142, 254, 37, 13, 97, 10, 191, 193, 180, 75, 254, 227, 132, 33, 15, 237,
        62]"
    by (simp add: PutUint32_def)
  have len: "length ([0, 0, 0, 0, 0, 1, 0, 51] :: byte list) < 56"
    by simp
  show ?thesis
    by (simp only: hmac_sha1_short [OF len] ipad_state opad_state inner outer out)
qed

lemma binCode_step_65587: "spec_binCode (hmac_sha1 testSeedBytes (PutUint64 65587)) = 1669603599"
proof -
  have c: "PutUint64 65587 = [0, 0, 0, 0, 0, 1, 0, 51]"
    by (simp add: PutUint64_def)
  show ?thesis
    by (simp only: c hmac_step_65587) (simp add: spec_binCode_def spec_offset_def)
qed

lemma otp_step_65587: "otp_string default_config (hmac_sha1 testSeedBytes (PutUint64 65587)) = ''603599''"
  by (simp only: otp_string_def binCode_step_65587)
     (simp add: default_config_def Sprintf_0d_def zero_pad_def FormatUint.simps digit_chars)

lemma totp_step_65587: "totp_string default_config testToken 1967610 = ''603599''"
proof -
  have "go_div 1967610 (StepSeconds default_config) = 65587"
    by (simp add: default_config_def go_div_def signed_divide_int_def)
  then show ?thesis
    by (simp add: totp_string_def testToken_def otp_step_65587)
qed

















lemma hmac_step_minus_1:
  "hmac_sha1 testSeedBytes [255, 255, 255, 255, 255, 255, 255, 255] =
     [104, 75, 67, 219, 68, 26, 139, 255, 217, 82, 153, 147, 146, 51, 31, 198, 111, 222, 241,
      183]"
proof -
  have inner:
    "sha1_block (2049113127, 3107913, 1494473299, 1337403178, 391039980)
       ([255, 255, 255, 255, 255, 255, 255, 255] @ sha1_padding (64 + length ([255, 255, 255, 255, 255, 255, 255, 255] :: byte list)))
       = (2048661706, 3290183821, 3091718336, 1043395624, 3849374068)"
    by (simp del: sha1_rounds.simps(2) sha1_add.simps add: sha1_eval sha1_padding_def PutUint64_def PutUint32_def replicate_numeral)
  have outer:
    "sha1_block (2362085594, 2393452332, 467183182, 61077455, 3327423296)
       (sha1_out (2048661706, 3290183821, 3091718336, 1043395624, 3849374068) @ sha1_padding 84)
       = (1749763035, 1142590463, 3646069139, 2452824006, 1876881847)"
    by (simp del: sha1_rounds.simps(2) sha1_add.simps add: sha1_eval sha1_padding_def PutUint64_def PutUint32_def replicate_numeral)
  have out:
    "sha1_out (1749763035, 1142590463, 3646069139, 2452824006, 1876881847) =
       [104, 75, 67, 219, 68, 26, 139, 255, 217, 82, 153, 147, 146, 51, 31, 198, 111, 222, 241,
        183]"
    by (simp add: PutUint32_def)
  have len: "length ([255, 255, 255, 255, 255, 255, 255, 255] :: byte list) < 56"
    by simp
  show ?thesis
    by (simp only: hmac_sha1_short [OF len] ipad_state opad_state inner outer out)
qed

lemma binCode_step_minus_1: "spec_binCode (hmac_sha1 testSeedBytes (PutUint64 (- 1))) = 2144948889"
proof -
  have c: "PutUint64 (- 1) = [255, 255, 255, 255, 255, 255, 255, 255]"
  proof -
    have "((- 1) :: uint64) = 18446744073709551615"
      by simp
    then show ?thesis
      by (simp only:) (simp add: PutUint64_def)
  qed
  show ?thesis
    by (simp only: c hmac_step_minus_1) (simp add: spec_binCode_def spec_offset_def)
qed

lemma otp_step_minus_1: "otp_string default_config (hmac_sha1 testSeedBytes (PutUint64 (- 1))) = ''948889''"
  by (simp only: otp_string_def binCode_step_minus_1)
     (simp add: default_config_def Sprintf_0d_def zero_pad_def FormatUint.simps digit_chars)

section \<open>The verifier, the constructors and the receiver\<close>


lemma GenerateTOTP_error_iff:
  assumes "StepSeconds cfg \<noteq> 0"
  shows "(\<exists>e. GenerateTOTP cfg t genTime = Inl (Error e)) = (Seed t = [])"
proof (cases "Seed t = []")
  case True
  then show ?thesis
    using assms by (simp add: GenerateTOTP_no_seed)
next
  case False
  have "GenerateTOTP cfg t genTime \<noteq> Inl (Error e)" for e
  proof (cases "0 \<le> sint (TokenLength cfg)")
    case True
    then show ?thesis
      using False assms by (simp add: GenerateTOTP_code)
  next
    case False
    then show ?thesis
      using \<open>Seed t \<noteq> []\<close> assms
      by (simp add: GenerateTOTP_eq GenerateOTP_panic PutUint64_nonempty)
  qed
  then show ?thesis
    using False by simp
qed

lemma Token_inv_TokenFromBytes: "TokenFromBytes seedBytes = Inr t \<Longrightarrow> Token_inv t"
  by (auto simp add: TokenFromBytes_def Token_inv_def EncodeToString_rfc4648)

lemma Token_inv_NewToken: "NewToken cfg intn = Inr t \<Longrightarrow> Token_inv t"
  by (auto simp add: NewToken_def split: if_splits intro: Token_inv_TokenFromBytes)

lemma fst_call: "fst (call cfg clock t m) = t"
  by (cases m) simp_all

lemma calls_unchanged: "calls cfg clock t ms = t"
  by (induction ms) (simp_all add: fst_call)

lemma index_in_range: "i < length s \<Longrightarrow> index s i = Inr (s ! i)"
  by (simp add: index_def)

lemma GenerateOTP_not_index_panic: "GenerateOTP cfg t counterBytes \<noteq> Inl (Panic IndexOutOfRange)"
  by (simp add: GenerateOTP_def truncate_digest length_hmac_sha1 render_def)

lemma FormatInt_711111782: "FormatInt 711111782 = ''711111782''"
  by (simp add: FormatInt_def FormatUint.simps digit_chars)

lemma Sprintf_0d_example: "Sprintf_0d 6 42 = ''000042''"
  by (simp add: Sprintf_0d_def zero_pad_def FormatUint.simps digit_chars replicate_numeral)

section \<open>The claims\<close>

text \<open>
  C1. For every non-empty secret and non-empty counter, \<open>GenerateOTP\<close> computes the code
  by dynamic truncation: the HMAC-SHA1 digest has 20 bytes, the offset is the low nibble
  of its last byte, \<open>binCode\<close> is put together from the four bytes at the offset with the
  top bit of the first one cleared, a number below \<open>2\<^sup>3\<^sup>1\<close>, and the code returned is
  the rendering of \<open>binCode mod 10\<^sup>n\<close> for the code length \<open>n\<close>, whose numeric value is that
  number. The code length is not negative (a negative one is left undefined by the
  specification); the numeric value is read off for every length that \<open>fmt\<close> accepts as
  a width.
\<close>

theorem GenerateOTP_dynamic_truncation:
  assumes "Seed t \<noteq> []" and "counterBytes \<noteq> []" and "0 \<le> sint (TokenLength cfg)"
  shows "\<exists>code.
           length (hmac_sha1 (Seed t) counterBytes) = 20 \<and>
           spec_offset (hmac_sha1 (Seed t) counterBytes) + 3 < 20 \<and>
           0 \<le> spec_binCode (hmac_sha1 (Seed t) counterBytes) \<and>
           spec_binCode (hmac_sha1 (Seed t) counterBytes) < 2 ^ 31 \<and>
           GenerateOTP cfg t counterBytes = Inr code \<and>
           code = Sprintf_0d (sint (TokenLength cfg))
                    (spec_binCode (hmac_sha1 (Seed t) counterBytes)
                       mod 10 ^ nat (sint (TokenLength cfg))) \<and>
           (sint (TokenLength cfg) \<le> 10000009 \<longrightarrow>
              decimal_value code =
                Some (nat (spec_binCode (hmac_sha1 (Seed t) counterBytes)
                             mod 10 ^ nat (sint (TokenLength cfg)))))"
proof -
  let ?digest = "hmac_sha1 (Seed t) counterBytes"
  have "spec_offset ?digest + 3 < 20"
    using spec_offset_le [of ?digest] by simp
  moreover have "GenerateOTP cfg t counterBytes = Inr (otp_string cfg ?digest)"
    using assms by (rule GenerateOTP_code)
  moreover have "decimal_value (otp_string cfg ?digest) =
      Some (nat (spec_binCode ?digest mod 10 ^ nat (sint (TokenLength cfg))))"
    if "sint (TokenLength cfg) \<le> 10000009"
    using assms(3) that by (rule decimal_value_otp_string)
  ultimately show ?thesis
    using spec_binCode_bounds [of ?digest] by (simp add: length_hmac_sha1 otp_string_def)
qed

theorem GenerateOTP_dynamic_truncation_witness:
  "Seed testToken \<noteq> [] \<and> PutUint64 3333 \<noteq> [] \<and> 0 \<le> sint (TokenLength default_config) \<and>
   sint (TokenLength default_config) \<le> 10000009 \<and>
   spec_binCode (hmac_sha1 (Seed testToken) (PutUint64 3333)) = 711111782 \<and>
   GenerateOTP default_config testToken (PutUint64 3333) = Inr ''111782'' \<and>
   decimal_value ''111782'' = Some 111782"
proof -
  have s: "Seed testToken \<noteq> []" and c: "PutUint64 3333 \<noteq> []"
    and n: "0 \<le> sint (TokenLength default_config)"
    by (simp_all add: testToken_def testSeedBytes_def PutUint64_def default_config_def)
  have code: "Sprintf_0d 6 111782 = ''111782''"
    by (simp add: Sprintf_0d_def zero_pad_def FormatUint.simps digit_chars)
  have dv: "decimal_value ''111782'' = Some 111782"
    by (simp add: decimal_value_def digit_of_def is_digit_def)
  have b: "spec_binCode (hmac_sha1 (Seed testToken) (PutUint64 3333)) = 711111782"
    using binCode_step_3333 by (simp add: testToken_def)
  show ?thesis
    using GenerateOTP_dynamic_truncation [OF s c n] s c n
    by (simp add: b default_config_def code dv)
qed

text \<open>
  C2, as stated: for every \<open>unixSeconds\<close>, negative ones included, \<open>GenerateTOTP\<close> takes
  the step \<open>floor(unixSeconds / stepSeconds)\<close> and returns what \<open>GenerateOTP\<close> returns
  for the 8-byte big-endian counter of that step. It fails one second before the epoch:
  the floor is \<open>-1\<close>, whose counter gives the code 948889, and \<open>GenerateTOTP\<close> returns
  650423, the code of step 0.
\<close>

theorem GenerateTOTP_floor_counterexample:
  "sint (- 1 :: int64) div sint (StepSeconds default_config) = - 1 \<and>
   GenerateOTP default_config testToken
     (PutUint64 (word_of_int (sint (- 1 :: int64) div sint (StepSeconds default_config))))
       = Inr ''948889'' \<and>
   GenerateTOTP default_config testToken (- 1) = Inr ''650423''"
proof -
  have fl: "sint (- 1 :: int64) div sint (StepSeconds default_config) = - 1"
    by (simp add: default_config_def)
  have cfg: "Seed testToken \<noteq> []" "StepSeconds default_config \<noteq> 0"
    "0 \<le> sint (TokenLength default_config)"
    by (simp_all add: testToken_def testSeedBytes_def default_config_def)
  have "GenerateOTP default_config testToken (PutUint64 (- 1)) = Inr ''948889''"
    using cfg otp_step_minus_1
    by (simp add: GenerateOTP_code PutUint64_nonempty) (simp add: testToken_def)
  moreover have "GenerateTOTP default_config testToken (- 1) = Inr ''650423''"
    using cfg by (simp add: GenerateTOTP_code totp_step_0)
  ultimately show ?thesis
    by (simp only: fl) simp
qed

text \<open>
  C2, amended: for every \<open>unixSeconds\<close> and positive \<open>stepSeconds\<close>, \<open>GenerateTOTP\<close> takes
  the step \<open>unixSeconds / stepSeconds\<close> rounded towards zero, which is the floor when
  \<open>unixSeconds\<close> is not negative, writes it as an 8-byte big-endian counter (in two's
  complement), and returns exactly what \<open>GenerateOTP\<close> returns for the token and that
  counter.
\<close>

theorem GenerateTOTP_truncated_step:
  assumes "0 < sint (StepSeconds cfg)"
  shows "GenerateTOTP cfg t genTime =
           GenerateOTP cfg t (PutUint64 (go_div genTime (StepSeconds cfg))) \<and>
         sint (go_div genTime (StepSeconds cfg)) =
           sgn (sint genTime) * (\<bar>sint genTime\<bar> div sint (StepSeconds cfg)) \<and>
         (0 \<le> sint genTime \<longrightarrow>
            sint (go_div genTime (StepSeconds cfg)) = sint genTime div sint (StepSeconds cfg)) \<and>
         length (PutUint64 (go_div genTime (StepSeconds cfg))) = 8 \<and>
         be_value (PutUint64 (go_div genTime (StepSeconds cfg))) =
           uint (go_div genTime (StepSeconds cfg))"
proof -
  have nz: "StepSeconds cfg \<noteq> 0"
    using assms by auto
  have d: "sint (go_div genTime (StepSeconds cfg)) = sint genTime sdiv sint (StepSeconds cfg)"
    using assms by (rule sint_go_div_pos)
  have "sint genTime sdiv sint (StepSeconds cfg) =
          sgn (sint genTime) * (\<bar>sint genTime\<bar> div sint (StepSeconds cfg))"
    using assms by (simp add: signed_divide_int_def)
  moreover have "sint genTime sdiv sint (StepSeconds cfg) = sint genTime div sint (StepSeconds cfg)"
    if "0 \<le> sint genTime"
    using that assms by (rule sdiv_nonneg)
  ultimately show ?thesis
    using nz by (simp add: GenerateTOTP_eq d be_value_PutUint64) (simp add: PutUint64_def)
qed

theorem GenerateTOTP_truncated_step_witness:
  "0 < sint (StepSeconds default_config) \<and>
   GenerateTOTP default_config testToken 100000 =
     GenerateOTP default_config testToken (PutUint64 3333) \<and>
   sint (go_div 100000 (StepSeconds default_config)) = 3333 \<and>
   be_value (PutUint64 (go_div 100000 (StepSeconds default_config))) = 3333"
proof -
  have p: "0 < sint (StepSeconds default_config)"
    by (simp add: default_config_def)
  have g: "go_div 100000 (StepSeconds default_config) = 3333"
    by (simp add: default_config_def go_div_def signed_divide_int_def)
  show ?thesis
    using GenerateTOTP_truncated_step [OF p, of testToken 100000] p
    by (simp add: g)
qed

text \<open>
  C3. For the secret of the 20 bytes 65 to 84, the time 100000, the step of 30 seconds and
  the code length 6, \<open>GenerateTOTP\<close> returns the code 111782.
\<close>

theorem GenerateTOTP_test_vector:
  "testSeedBytes = [65, 66, 67, 68, 69, 70, 71, 72, 73, 74, 75, 76, 77, 78, 79, 80, 81, 82, 83, 84] \<and>
   testTime = 100000 \<and> StepSeconds default_config = 30 \<and> TokenLength default_config = 6 \<and>
   TokenFromBytes testSeedBytes = Inr testToken \<and>
   GenerateTOTP default_config testToken testTime = Inr ''111782''"
proof -
  have cfg: "Seed testToken \<noteq> []" "StepSeconds default_config \<noteq> 0"
    "0 \<le> sint (TokenLength default_config)"
    by (simp_all add: testToken_def testSeedBytes_def default_config_def)
  have "GenerateTOTP default_config testToken testTime = Inr ''111782''"
    using cfg by (simp add: GenerateTOTP_code testTime_def totp_step_3333)
  moreover have "TokenFromBytes testSeedBytes = Inr testToken"
    by (rule TokenFromBytes_test)
  ultimately show ?thesis
    by (simp add: testSeedBytes_def testTime_def default_config_def)
qed




text \<open>
  C5, as stated: with \<open>allowDrift = false\<close> the verifier returns false for the codes valid
  in the adjacent steps. With the test secret and the default configuration, at the
  reference time 1967580 (step 65586) the code of the next step, generated for the time
  1967610, is 603599, and the verifier accepts it: it is the code of step 65586 as well.
\<close>

theorem VerifyChallenge_exact_counterexample:
  "go_div 1967580 (StepSeconds default_config) = 65586 \<and>
   go_div (1967580 + StepSeconds default_config) (StepSeconds default_config) = 65587 \<and>
   GenerateTOTP default_config testToken (1967580 + StepSeconds default_config) = Inr ''603599'' \<and>
   VerifyChallenge default_config (\<lambda>k. 1967580) testToken ''603599'' False = Inr True"
proof -
  have cfg: "Seed testToken \<noteq> []" "StepSeconds default_config \<noteq> 0"
    "0 \<le> sint (TokenLength default_config)"
    by (simp_all add: testToken_def testSeedBytes_def default_config_def)
  have n: "1967580 + StepSeconds default_config = 1967610"
    by (simp add: default_config_def)
  have "go_div 1967580 (StepSeconds default_config) = 65586"
    "go_div 1967610 (StepSeconds default_config) = 65587"
    by (simp_all add: default_config_def go_div_def signed_divide_int_def)
  moreover have "GenerateTOTP default_config testToken 1967610 = Inr ''603599''"
    using cfg by (simp add: GenerateTOTP_code totp_step_65587)
  moreover have "VerifyChallenge default_config (\<lambda>k. 1967580) testToken ''603599'' False = Inr True"
    using cfg by (simp add: VerifyChallenge_exact totp_step_65586)
  ultimately show ?thesis
    by (simp add: n)
qed

text \<open>
  C5, amended: for every token with a non-empty secret and every reference time \<open>t\<close>, the
  verifier with \<open>allowDrift = false\<close> returns true exactly when the challenge equals the
  code of the time step of \<open>t\<close>; so it returns false for the code of an adjacent step
  unless that code equals the code of the current step. (The step is not zero and the code
  length not negative.)
\<close>

theorem VerifyChallenge_exact_step:
  assumes "Seed t \<noteq> []" and "StepSeconds cfg \<noteq> 0" and "0 \<le> sint (TokenLength cfg)"
  shows "VerifyChallenge cfg (\<lambda>k. now) t challenge False =
           Inr (GenerateTOTP cfg t now = Inr challenge) \<and>
         (GenerateTOTP cfg t now \<noteq> Inr challenge \<longrightarrow>
            VerifyChallenge cfg (\<lambda>k. now) t challenge False = Inr False)"
  using assms by (simp add: VerifyChallenge_exact GenerateTOTP_code)

theorem VerifyChallenge_exact_step_witness:
  "Seed testToken \<noteq> [] \<and> StepSeconds default_config \<noteq> 0 \<and>
   0 \<le> sint (TokenLength default_config) \<and>
   GenerateTOTP default_config testToken 100000 = Inr ''111782'' \<and>
   VerifyChallenge default_config (\<lambda>k. 100000) testToken ''111782'' False = Inr True \<and>
   GenerateTOTP default_config testToken 5880 = Inr ''765779'' \<and>
   VerifyChallenge default_config (\<lambda>k. 5880) testToken ''111782'' False = Inr False"
proof -
  have s: "Seed testToken \<noteq> []" and cfg: "StepSeconds default_config \<noteq> 0"
    "0 \<le> sint (TokenLength default_config)"
    by (simp_all add: testToken_def testSeedBytes_def default_config_def)
  have g: "GenerateTOTP default_config testToken 100000 = Inr ''111782''"
    "GenerateTOTP default_config testToken 5880 = Inr ''765779''"
    using cfg s by (simp_all add: GenerateTOTP_code totp_step_3333 totp_step_196)
  show ?thesis
    using VerifyChallenge_exact_step [OF s cfg, of 100000 "''111782''"]
      VerifyChallenge_exact_step [OF s cfg, of 5880 "''111782''"] s cfg g
    by simp
qed

text \<open>
  C6. \<open>GenerateOTP\<close> returns an error exactly when the secret of the token is empty or
  the counter is empty; for every non-empty secret and non-empty counter it returns a
  code and no error. (The code length is not negative.)
\<close>

theorem GenerateOTP_errors:
  "((\<exists>e. GenerateOTP cfg t counterBytes = Inl (Error e)) = (Seed t = [] \<or> counterBytes = [])) \<and>
   (0 \<le> sint (TokenLength cfg) \<and> Seed t \<noteq> [] \<and> counterBytes \<noteq> [] \<longrightarrow>
      (\<exists>code. GenerateOTP cfg t counterBytes = Inr code))"
proof -
  have "\<exists>e. GenerateOTP cfg t counterBytes = Inl (Error e)" if "Seed t = [] \<or> counterBytes = []"
    using that by (auto simp add: GenerateOTP_def)
  moreover have "GenerateOTP cfg t counterBytes \<noteq> Inl (Error e)"
    if "Seed t \<noteq> []" "counterBytes \<noteq> []" for e
    using that
    by (cases "0 \<le> sint (TokenLength cfg)") (simp_all add: GenerateOTP_code GenerateOTP_panic)
  moreover have "\<exists>code. GenerateOTP cfg t counterBytes = Inr code"
    if "0 \<le> sint (TokenLength cfg)" "Seed t \<noteq> []" "counterBytes \<noteq> []"
    using that by (simp add: GenerateOTP_code)
  ultimately show ?thesis
    by blast
qed

theorem GenerateOTP_errors_witness:
  "0 \<le> sint (TokenLength default_config) \<and> Seed testToken \<noteq> [] \<and> PutUint64 3333 \<noteq> [] \<and>
   (\<exists>code. GenerateOTP default_config testToken (PutUint64 3333) = Inr code) \<and>
   (\<exists>e. GenerateOTP default_config \<lparr>Seed = [], Base32 = ''''\<rparr> (PutUint64 3333) = Inl (Error e)) \<and>
   (\<exists>e. GenerateOTP default_config testToken [] = Inl (Error e))"
proof -
  have h: "0 \<le> sint (TokenLength default_config)" "Seed testToken \<noteq> []" "PutUint64 3333 \<noteq> []"
    by (simp_all add: testToken_def testSeedBytes_def default_config_def PutUint64_def)
  show ?thesis
    using GenerateOTP_errors [of default_config testToken "PutUint64 3333"]
      GenerateOTP_errors [of default_config "\<lparr>Seed = [], Base32 = ''''\<rparr>" "PutUint64 3333"]
      GenerateOTP_errors [of default_config testToken "[]"] h
    by simp
qed

text \<open>
  C7. Every token made by \<open>TokenFromBytes\<close>, and so by \<open>NewToken\<close>, has as its display
  encoding the base-32 encoding of RFC 4648 of its secret, in upper case (the encoding has
  no lower-case character, so it is that encoding itself); for the secret of the bytes 65
  to 84 it is \<open>IFBEGRCFIZDUQSKKJNGE2TSPKBIVEU2U\<close>; and no call of a method changes a field
  of its receiver, so the invariant holds after any sequence of calls.
\<close>

theorem Token_invariant:
  "(\<exists>t. TokenFromBytes seedBytes = Inr t \<and> Seed t = seedBytes \<and> Token_inv t \<and>
        Base32 t = rfc4648_base32 seedBytes) \<and>
   (\<forall>t. NewToken cfg intn = Inr t \<longrightarrow> Token_inv t) \<and>
   TokenFromBytes testSeedBytes =
     Inr \<lparr>Seed = testSeedBytes, Base32 = ''IFBEGRCFIZDUQSKKJNGE2TSPKBIVEU2U''\<rparr> \<and>
   (Token_inv t \<longrightarrow>
      Seed (calls cfg clock t ms) = Seed t \<and> Base32 (calls cfg clock t ms) = Base32 t \<and>
      Token_inv (calls cfg clock t ms))"
proof -
  have "Token_inv \<lparr>Seed = seedBytes, Base32 = ToUpper (EncodeToString seedBytes)\<rparr>"
    by (rule Token_inv_TokenFromBytes) (simp add: TokenFromBytes_def)
  moreover have "ToUpper (rfc4648_base32 seedBytes) = rfc4648_base32 seedBytes"
    using ToUpper_EncodeToString [of seedBytes] by (simp only: EncodeToString_rfc4648)
  moreover have "TokenFromBytes testSeedBytes =
      Inr \<lparr>Seed = testSeedBytes, Base32 = ''IFBEGRCFIZDUQSKKJNGE2TSPKBIVEU2U''\<rparr>"
    using TokenFromBytes_test by (simp only: testToken_def)
  ultimately show ?thesis
    by (auto simp add: TokenFromBytes_def calls_unchanged EncodeToString_rfc4648
        dest: Token_inv_NewToken)
qed

theorem Token_invariant_witness:
  "NewToken default_config (\<lambda>k. 10) = Inr \<lparr>Seed = replicate 20 65, Base32 = ToUpper (EncodeToString (replicate 20 65))\<rparr> \<and>
   Token_inv \<lparr>Seed = replicate 20 65, Base32 = ToUpper (EncodeToString (replicate 20 65))\<rparr> \<and>
   Token_inv testToken \<and>
   Token_inv (calls default_config (\<lambda>k. 100000) testToken
     [CallVerifyChallenge ''111782'' True, CallGenerateTOTP 100000, CallGenerateOTP []]) \<and>
   Base32 (calls default_config (\<lambda>k. 100000) testToken
     [CallVerifyChallenge ''111782'' True, CallGenerateTOTP 100000, CallGenerateOTP []])
     = ''IFBEGRCFIZDUQSKKJNGE2TSPKBIVEU2U''"
proof -
  let ?t = "\<lparr>Seed = replicate 20 65, Base32 = ToUpper (EncodeToString (replicate 20 65))\<rparr>"
  let ?ms = "[CallVerifyChallenge ''111782'' True, CallGenerateTOTP 100000, CallGenerateOTP []]"
  have n: "NewToken default_config (\<lambda>k. 10) = Inr ?t"
    by (simp add: NewToken_def default_config_def TokenFromBytes_def runeCharacters_def
        map_replicate_const)
  have i: "Token_inv testToken"
    using Token_invariant [of testSeedBytes default_config "\<lambda>k. 10" testToken "\<lambda>k. 100000" ?ms]
    by (auto simp add: testToken_def)
  show ?thesis
    using Token_invariant [of testSeedBytes default_config "\<lambda>k. 10" testToken "\<lambda>k. 100000" ?ms] n i
    by (simp add: testToken_def)
qed

text \<open>
  C8, as stated: for every positive code length the code has exactly that many decimal
  digits. With the code length 10000010 the formatter gives up on the width: the code of
  the test secret and the counter 3333 is the 33 characters of its error marker.
\<close>

theorem GenerateOTP_code_length_counterexample:
  "0 < sint (TokenLength (default_config\<lparr>TokenLength := 10000010\<rparr>)) \<and>
   GenerateOTP (default_config\<lparr>TokenLength := 10000010\<rparr>) testToken (PutUint64 3333)
     = Inr ''%!(NOVERB)%!(EXTRA int=711111782)''"
proof -
  let ?cfg = "default_config\<lparr>TokenLength := 10000010\<rparr>"
  have n: "sint (TokenLength ?cfg) = 10000010"
    by simp
  have s: "Seed testToken \<noteq> []" "PutUint64 3333 \<noteq> []"
    by (simp_all add: testToken_def testSeedBytes_def PutUint64_def)
  have nn: "0 \<le> sint (TokenLength ?cfg)" and large: "10000009 < sint (TokenLength ?cfg)"
    by (simp_all add: n)
  have "GenerateOTP ?cfg testToken (PutUint64 3333) =
          Inr (otp_string ?cfg (hmac_sha1 (Seed testToken) (PutUint64 3333)))"
    using s nn by (rule GenerateOTP_code)
  also have "otp_string ?cfg (hmac_sha1 (Seed testToken) (PutUint64 3333)) =
          NOVERB (spec_binCode (hmac_sha1 (Seed testToken) (PutUint64 3333)))"
    using large by (rule otp_string_too_large)
  also have "\<dots> = ''%!(NOVERB)%!(EXTRA int=711111782)''"
    using binCode_step_3333 by (simp add: testToken_def NOVERB_def FormatInt_711111782)
  finally show ?thesis
    by (simp add: n)
qed

text \<open>
  C8, amended: for every non-empty secret, non-empty counter and code length from 1 to
  10000009, the code returned by \<open>GenerateOTP\<close> consists of exactly that many decimal
  digits: the decimal digits of the value, with zeroes on their left (the value 42 with
  the code length 6 is rendered as \<open>000042\<close>).
\<close>

theorem GenerateOTP_code_digits:
  assumes "Seed t \<noteq> []" and "counterBytes \<noteq> []"
    and "0 < sint (TokenLength cfg)" and "sint (TokenLength cfg) \<le> 10000009"
  shows "\<exists>code ds.
           GenerateOTP cfg t counterBytes = Inr code \<and>
           length code = nat (sint (TokenLength cfg)) \<and>
           list_all is_digit code \<and>
           ds = FormatUint (nat (spec_binCode (hmac_sha1 (Seed t) counterBytes)
                                   mod 10 ^ nat (sint (TokenLength cfg)))) \<and>
           code = replicate (nat (sint (TokenLength cfg)) - length ds) CHR ''0'' @ ds \<and>
           Sprintf_0d 6 42 = ''000042''"
proof -
  let ?digest = "hmac_sha1 (Seed t) counterBytes"
  have "GenerateOTP cfg t counterBytes = Inr (otp_string cfg ?digest)"
    using assms(1,2,3) by (intro GenerateOTP_code) simp_all
  moreover have "length (otp_string cfg ?digest) = nat (sint (TokenLength cfg))"
    using assms(3,4) by (rule length_otp_string)
  moreover have "list_all is_digit (otp_string cfg ?digest)"
    using assms(3,4) by (rule digits_otp_string)
  moreover have "otp_string cfg ?digest =
      zero_pad (nat (sint (TokenLength cfg)))
        (FormatUint (nat (spec_binCode ?digest mod 10 ^ nat (sint (TokenLength cfg)))))"
    using assms(3,4) by (rule otp_string_padded)
  ultimately show ?thesis
    by (simp add: zero_pad_def Sprintf_0d_example)
qed

theorem GenerateOTP_code_digits_witness:
  "Seed testToken \<noteq> [] \<and> PutUint64 3333 \<noteq> [] \<and> 0 < sint (TokenLength default_config) \<and>
   sint (TokenLength default_config) \<le> 10000009 \<and>
   GenerateOTP default_config testToken (PutUint64 3333) = Inr ''111782'' \<and>
   length ''111782'' = nat (sint (TokenLength default_config)) \<and>
   list_all is_digit ''111782''"
proof -
  have h: "Seed testToken \<noteq> []" "PutUint64 3333 \<noteq> []" "0 < sint (TokenLength default_config)"
    "sint (TokenLength default_config) \<le> 10000009"
    by (simp_all add: testToken_def testSeedBytes_def default_config_def PutUint64_def)
  have b: "spec_binCode (hmac_sha1 (Seed testToken) (PutUint64 3333)) = 711111782"
    using binCode_step_3333 by (simp add: testToken_def)
  have f: "FormatUint 111782 = ''111782''"
    by (simp add: FormatUint.simps digit_chars)
  show ?thesis
    using GenerateOTP_code_digits [OF h] h
    by (simp add: b default_config_def f is_digit_def)
qed

text \<open>
  C9. In \<open>GenerateOTP\<close> every index of the digest read during the truncation is in
  bounds: the digest has 20 bytes, the offset is at most 15, the four reads at the
  offset to the offset plus 3 stay at or below index 18, and no call of \<open>GenerateOTP\<close>
  panics on an index out of range.
\<close>

theorem GenerateOTP_index_in_bounds:
  "\<exists>digest offset otp.
     digest = hmac_sha1 (Seed t) counterBytes \<and> length digest = 20 \<and>
     truncate_offset digest = Inr offset \<and> offset = unat (digest ! 19 AND 0xF) \<and>
     offset \<le> 15 \<and> offset + 3 \<le> 18 \<and>
     index digest offset = Inr (digest ! offset) \<and>
     index digest (offset + 1) = Inr (digest ! (offset + 1)) \<and>
     index digest (offset + 2) = Inr (digest ! (offset + 2)) \<and>
     index digest (offset + 3) = Inr (digest ! (offset + 3)) \<and>
     dynamic_truncate digest = Inr otp \<and>
     GenerateOTP cfg t counterBytes \<noteq> Inl (Panic IndexOutOfRange)"
proof -
  let ?digest = "hmac_sha1 (Seed t) counterBytes"
  let ?offset = "unat (?digest ! 19 AND 0xF)"
  have len: "length ?digest = 20"
    by (rule length_hmac_sha1)
  have le: "?offset \<le> 15"
    by (rule offset_le_15)
  have "truncate_offset ?digest = Inr ?offset"
    using len by (rule truncate_offset_20)
  moreover have "index ?digest ?offset = Inr (?digest ! ?offset)"
    "index ?digest (?offset + 1) = Inr (?digest ! (?offset + 1))"
    "index ?digest (?offset + 2) = Inr (?digest ! (?offset + 2))"
    "index ?digest (?offset + 3) = Inr (?digest ! (?offset + 3))"
    using len le by (simp_all add: index_in_range)
  moreover have "dynamic_truncate ?digest = Inr (truncated ?digest)"
    using len by (rule truncate_digest)
  ultimately show ?thesis
    using len le GenerateOTP_not_index_panic [of cfg t counterBytes]
    by (intro exI [of _ ?digest] exI [of _ ?offset] exI [of _ "truncated ?digest"]) simp
qed

text \<open>
  C10. \<open>TokenFromBytes\<close> never returns an error: for every byte sequence, the empty one
  included, it returns a token holding that sequence as its secret.
\<close>

theorem TokenFromBytes_total:
  "TokenFromBytes seedBytes =
     Inr \<lparr>Seed = seedBytes, Base32 = ToUpper (EncodeToString seedBytes)\<rparr> \<and>
   (\<exists>t. TokenFromBytes seedBytes = Inr t \<and> Seed t = seedBytes) \<and>
   TokenFromBytes [] = Inr \<lparr>Seed = [], Base32 = ''''\<rparr>"
  by (simp add: TokenFromBytes_def ToUpper_def)

end
